theory Spec2Isabelle
  imports Complex_Main "HOL-Library.Word"
begin

section \<open>Data model\<close>

text \<open>
  \<^verbatim>\<open>coord_t\<close> and \<^verbatim>\<open>dimens_t\<close> are both \<^verbatim>\<open>unsigned long long\<close>
  (Matrix.h): 64-bit words, whose arithmetic wraps around.
\<close>

type_synonym coord_t = "64 word"
type_synonym dimens_t = "64 word"

text \<open>
  A \<^verbatim>\<open>double\<close>. A finite value is kept as the rational number it denotes, with the
  negative zero apart; the two infinities and the NaN are constructors of their own.
  Equality of two values of this type is equality of the bit patterns (all NaNs taken as one).
\<close>

datatype double = Fin rat | NegZero | PInf | NInf | NaN

text \<open>
  Every \<^verbatim>\<open>throw\<close> of the library, and every exception of the standard library that
  the code can let escape, is one constructor. In the words of the specification:
  \<open>OutOfRange\<close> (\<^verbatim>\<open>std::out_of_range\<close> of \<^verbatim>\<open>std::map::at\<close>) and \<open>ViewOutside\<close> are
  its \<^emph>\<open>out of range\<close>; \<open>NonUniformWidth\<close>, \<open>LikeDimensions\<close>, \<open>MulShape\<close>,
  \<open>VConcatWidths\<close>, \<open>HConcatHeights\<close> and \<open>ViewAssignShape\<close> are its \<^emph>\<open>shape mismatch\<close>;
  \<open>Nonsquare\<close> is \<^emph>\<open>nonsquare\<close>; \<open>NotInvertible\<close> is \<^emph>\<open>singular\<close>; \<open>AddressFormat\<close>,
  \<open>StollInvalid\<close>, \<open>StollRange\<close> and \<open>SubstrRange\<close> are raised on a malformed address.
\<close>

datatype error =
    NonUniformWidth    \<comment> \<open>\<^verbatim>\<open>invalid_argument ("Matrix must have uniform width.")\<close>\<close>
  | OutOfRange         \<comment> \<open>\<^verbatim>\<open>std::out_of_range\<close>, thrown by \<^verbatim>\<open>numbers.at\<close>\<close>
  | LikeDimensions     \<comment> \<open>\<^verbatim>\<open>invalid_argument ("Operands must have like dimensions.")\<close>\<close>
  | MulShape           \<comment> \<open>\<^verbatim>\<open>invalid_argument ("Right operand must have as many rows ...")\<close>\<close>
  | Nonsquare          \<comment> \<open>\<^verbatim>\<open>domain_error ("Can't compute determinant of nonsquare matrix: ...")\<close>\<close>
  | NotInvertible      \<comment> \<open>\<^verbatim>\<open>domain_error ("Matrix not invertible.")\<close>\<close>
  | VConcatWidths      \<comment> \<open>\<^verbatim>\<open>invalid_argument ("Can't vertically concatenate ...")\<close>\<close>
  | HConcatHeights     \<comment> \<open>\<^verbatim>\<open>invalid_argument ("Can't horizontally concatenate ...")\<close>\<close>
  | ViewOutside        \<comment> \<open>\<^verbatim>\<open>invalid_argument ("The view's dimensions extend outside the matrix itself.")\<close>\<close>
  | ViewAssignShape    \<comment> \<open>\<^verbatim>\<open>invalid_argument ("Assignment to MatrixView requires ...")\<close>\<close>
  | AddressFormat      \<comment> \<open>\<^verbatim>\<open>invalid_argument ("Address format incorrect: ...")\<close>\<close>
  | StollInvalid       \<comment> \<open>\<^verbatim>\<open>std::invalid_argument\<close> of \<^verbatim>\<open>std::stoll\<close>: no digits\<close>
  | StollRange         \<comment> \<open>\<^verbatim>\<open>std::out_of_range\<close> of \<^verbatim>\<open>std::stoll\<close>: not a \<^verbatim>\<open>long long\<close>\<close>
  | SubstrRange        \<comment> \<open>\<^verbatim>\<open>std::out_of_range\<close> of \<^verbatim>\<open>substr (1)\<close> on the empty string\<close>
  | Undefined          \<comment> \<open>undefined behaviour: \<^verbatim>\<open>coords.begin() + 1\<close> of an empty vector\<close>

text \<open>\<^verbatim>\<open>struct Matrix::_Matrix\<close>: the map of ordered pairs to values, the width, the height.\<close>

record matrix =
  numbers :: "coord_t \<times> coord_t \<rightharpoonup> double"
  width :: dimens_t
  height :: dimens_t

text \<open>\<^verbatim>\<open>Matrix::Matrix()\<close>: the private members are value-initialised.\<close>

definition Matrix_empty :: matrix where
  "Matrix_empty = \<lparr>numbers = Map.empty, width = 0, height = 0\<rparr>"

text \<open>
  The Matrix objects that can be written to live in a store, addressed by their index.
  A \<^verbatim>\<open>Matrix&\<close> is a reference to an object of the store (\<open>Obj\<close>), a temporary
  \<^verbatim>\<open>Matrix\<close> value bound to a reference (\<open>Tmp\<close>), or a \<^verbatim>\<open>MatrixView\<close>, which is
  a \<^verbatim>\<open>Matrix\<close> by inheritance: \<^verbatim>\<open>struct MatrixView::_MatrixView\<close> holds \<^verbatim>\<open>headRow\<close>,
  \<^verbatim>\<open>headColumn\<close>, \<^verbatim>\<open>width\<close>, \<^verbatim>\<open>height\<close> and the reference \<^verbatim>\<open>operand\<close>, which may be
  a view again. The fields of a view never change after its construction.
\<close>

type_synonym store = "matrix list"

datatype mref =
    Obj nat
  | Tmp matrix
  | View (operand: mref) (headRow: coord_t) (headColumn: coord_t)
         (vwidth: dimens_t) (vheight: dimens_t)

text \<open>The virtual \<^verbatim>\<open>width()\<close> and \<^verbatim>\<open>height()\<close>.\<close>

fun width_of :: "store \<Rightarrow> mref \<Rightarrow> dimens_t" where
  "width_of s (Obj a) = width (s ! a)"
| "width_of s (Tmp m) = width m"
| "width_of s (View m hr hc w h) = w"

fun height_of :: "store \<Rightarrow> mref \<Rightarrow> dimens_t" where
  "height_of s (Obj a) = height (s ! a)"
| "height_of s (Tmp m) = height m"
| "height_of s (View m hr hc w h) = h"

text \<open>\<^verbatim>\<open>numbers.at ({r, c})\<close> throws \<^verbatim>\<open>std::out_of_range\<close> when the key is absent.\<close>

definition map_at :: "(coord_t \<times> coord_t \<rightharpoonup> double) \<Rightarrow> coord_t \<Rightarrow> coord_t \<Rightarrow> error + double" where
  "map_at m r c = (case m (r, c) of None \<Rightarrow> Inl OutOfRange | Some v \<Rightarrow> Inr v)"

text \<open>
  The virtual \<^verbatim>\<open>operator() (r, c) const\<close>: \<^verbatim>\<open>Matrix\<close> looks the pair up,
  \<^verbatim>\<open>MatrixView\<close> translates to the operand's coordinates, in 64-bit arithmetic, and asks
  the operand.
\<close>

fun cell :: "store \<Rightarrow> mref \<Rightarrow> coord_t \<Rightarrow> coord_t \<Rightarrow> error + double" where
  "cell s (Obj a) r c = map_at (numbers (s ! a)) r c"
| "cell s (Tmp m) r c = map_at (numbers m) r c"
| "cell s (View m hr hc w h) r c = cell s m (hr + r - 1) (hc + c - 1)"

text \<open>
  A write through the \<^verbatim>\<open>double&\<close> that the non-const \<^verbatim>\<open>operator() (r, c)\<close> returns:
  the same translation, then the same \<^verbatim>\<open>at\<close>, which throws before anything is written.
  A temporary is not part of the store, and no function of the library writes to one.
\<close>

fun set_cell :: "store \<Rightarrow> mref \<Rightarrow> coord_t \<Rightarrow> coord_t \<Rightarrow> double \<Rightarrow> error + store" where
  "set_cell s (Obj a) r c v =
     (case numbers (s ! a) (r, c) of
        None \<Rightarrow> Inl OutOfRange
      | Some _ \<Rightarrow> Inr (s[a := (s ! a)\<lparr>numbers := (numbers (s ! a))((r, c) \<mapsto> v)\<rparr>]))"
| "set_cell s (Tmp m) r c v =
     (case numbers m (r, c) of None \<Rightarrow> Inl OutOfRange | Some _ \<Rightarrow> Inr s)"
| "set_cell s (View m hr hc w h) r c v = set_cell s m (hr + r - 1) (hc + c - 1) v"

text \<open>
  \<^verbatim>\<open>MatrixView::MatrixView (matrix, r1, c1, r2, c2)\<close>: the members are initialised
  (\<^verbatim>\<open>width (c2 - c1 + 1)\<close>, \<^verbatim>\<open>height (r2 - r1 + 1)\<close>), then the four upper bounds are tested.
\<close>

definition MatrixView :: "store \<Rightarrow> mref \<Rightarrow> coord_t \<Rightarrow> coord_t \<Rightarrow> coord_t \<Rightarrow> coord_t \<Rightarrow> error + mref" where
  "MatrixView s m r1 c1 r2 c2 =
     (if r1 > height_of s m \<or> r2 > height_of s m \<or> c1 > width_of s m \<or> c2 > width_of s m
      then Inl ViewOutside
      else Inr (View m r1 c1 (c2 - c1 + 1) (r2 - r1 + 1)))"

text \<open>
  A loop \<^verbatim>\<open>for (coord_t r = 1; r <= n; ++r)\<close> visits \<open>1, \<dots>, n\<close> in this order. (For
  \<open>n = 2\<^sup>6\<^sup>4 - 1\<close> the increment wraps and the loop of the source does not end by itself;
  no Matrix has such a dimension, since each of its rows is read from a line or a list.)
\<close>

definition coords :: "dimens_t \<Rightarrow> coord_t list" where
  "coords n = map word_of_nat [1..<Suc (unat n)]"

text \<open>\<^verbatim>\<open>std::map::insert\<close> leaves the map as it is when the key is already there.\<close>

definition map_insert ::
  "(coord_t \<times> coord_t \<rightharpoonup> double) \<Rightarrow> coord_t \<times> coord_t \<Rightarrow> double \<Rightarrow> (coord_t \<times> coord_t \<rightharpoonup> double)" where
  "map_insert m k v = (case m k of None \<Rightarrow> m(k \<mapsto> v) | Some _ \<Rightarrow> m)"

text \<open>The inner loop of both constructors: the values of one row, from column \<open>c\<close> on.\<close>

fun insert_cells ::
  "(coord_t \<times> coord_t \<rightharpoonup> double) \<Rightarrow> coord_t \<Rightarrow> coord_t \<Rightarrow> double list \<Rightarrow> (coord_t \<times> coord_t \<rightharpoonup> double)" where
  "insert_cells m r c [] = m"
| "insert_cells m r c (v # vs) = insert_cells (map_insert m (r, c) v) r (c + 1) vs"

text \<open>
  \<^verbatim>\<open>Matrix::Matrix (std::initializer_list<std::initializer_list<double>> nums)\<close>; \<open>i\<close> is
  \<^verbatim>\<open>i - nums.begin()\<close>. The first row of non-zero size fixes the width.
\<close>

fun Matrix_init_loop :: "matrix \<Rightarrow> nat \<Rightarrow> double list list \<Rightarrow> error + matrix" where
  "Matrix_init_loop m i [] = Inr m"
| "Matrix_init_loop m i (row # rows) =
     (let m1 = m\<lparr>height := height m + 1\<rparr> in
      if width m1 = 0
      then Matrix_init_loop
             (m1\<lparr>width := word_of_nat (length row),
                  numbers := insert_cells (numbers m1) (word_of_nat (i + 1)) 1 row\<rparr>) (i + 1) rows
      else if width m1 \<noteq> word_of_nat (length row) then Inl NonUniformWidth
      else Matrix_init_loop
             (m1\<lparr>numbers := insert_cells (numbers m1) (word_of_nat (i + 1)) 1 row\<rparr>) (i + 1) rows)"

definition Matrix_init :: "double list list \<Rightarrow> error + matrix" where
  "Matrix_init nums = Matrix_init_loop Matrix_empty 0 nums"

text \<open>The object that a literal such as \<^verbatim>\<open>{{1,2},{3,4}}\<close> constructs.\<close>

definition Matrix_of :: "double list list \<Rightarrow> matrix" where
  "Matrix_of nums = (case Matrix_init nums of Inr m \<Rightarrow> m | Inl e \<Rightarrow> Matrix_empty)"

text \<open>
  The cell \<open>(r, c)\<close> lies within a Matrix; a Matrix is well formed when its map holds
  exactly the cells within it (the rectangularity invariant of the data model).
\<close>

definition inside :: "matrix \<Rightarrow> coord_t \<Rightarrow> coord_t \<Rightarrow> bool" where
  "inside m r c = (1 \<le> r \<and> r \<le> height m \<and> 1 \<le> c \<and> c \<le> width m)"

definition wf_matrix :: "matrix \<Rightarrow> bool" where
  "wf_matrix m = (\<forall>r c. (numbers m (r, c) \<noteq> None) = inside m r c)"


text \<open>
  A function that writes returns the exception it ended with, if any, and the store as it
  is at that moment. A loop stops at the first exception.
\<close>

fun for_each ::
  "'a list \<Rightarrow> ('a \<Rightarrow> store \<Rightarrow> error option \<times> store) \<Rightarrow> store \<Rightarrow> error option \<times> store" where
  "for_each [] body s = (None, s)"
| "for_each (x # xs) body s =
     (case body x s of (Some e, s') \<Rightarrow> (Some e, s') | (None, s') \<Rightarrow> for_each xs body s')"

text \<open>
  \<^verbatim>\<open>(*this) (r + rOffset - 1, c + cOffset - 1) = matrix (rOffset, cOffset)\<close>: both operands
  are evaluated, either may throw \<^verbatim>\<open>std::out_of_range\<close>, then the value is stored.
\<close>

definition setAt_cell ::
  "mref \<Rightarrow> coord_t \<Rightarrow> coord_t \<Rightarrow> mref \<Rightarrow> coord_t \<Rightarrow> coord_t \<Rightarrow> store \<Rightarrow> error option \<times> store" where
  "setAt_cell this r c matrix rOffset cOffset s =
     (case cell s matrix rOffset cOffset of
        Inl e \<Rightarrow> (Some e, s)
      | Inr v \<Rightarrow>
          (case set_cell s this (r + rOffset - 1) (c + cOffset - 1) v of
             Inl e \<Rightarrow> (Some e, s)
           | Inr s' \<Rightarrow> (None, s')))"

text \<open>\<^verbatim>\<open>Matrix::setAt (r, c, matrix)\<close>: the two loops over the given matrix, and nothing before them.\<close>

definition setAt :: "store \<Rightarrow> mref \<Rightarrow> coord_t \<Rightarrow> coord_t \<Rightarrow> mref \<Rightarrow> error option \<times> store" where
  "setAt s this r c matrix =
     for_each (coords (height_of s matrix))
       (\<lambda>rOffset. for_each (coords (width_of s matrix)) (setAt_cell this r c matrix rOffset)) s"

text \<open>\<^verbatim>\<open>Matrix::isSameShape\<close>, through the virtual \<^verbatim>\<open>width()\<close> and \<^verbatim>\<open>height()\<close>.\<close>

definition isSameShape :: "store \<Rightarrow> mref \<Rightarrow> mref \<Rightarrow> bool" where
  "isSameShape s this matrix =
     (width_of s this = width_of s matrix \<and> height_of s this = height_of s matrix)"

text \<open>\<^verbatim>\<open>MatrixView::operator= (const Matrix& rhs)\<close>.\<close>

definition MatrixView_assign :: "store \<Rightarrow> mref \<Rightarrow> mref \<Rightarrow> error option \<times> store" where
  "MatrixView_assign s this rhs =
     (if \<not> isSameShape s this rhs then (Some ViewAssignShape, s) else setAt s this 1 1 rhs)"

text \<open>The object of the store that a reference reads and writes in the end, if any.\<close>

fun base :: "mref \<Rightarrow> nat option" where
  "base (Obj a) = Some a"
| "base (Tmp m) = None"
| "base (View m hr hc w h) = base m"



section \<open>Double arithmetic\<close>

text \<open>
  IEEE 754 binary64 with the rounding to nearest, ties to even: an operation on finite
  values yields the exact rational result, rounded to a multiple of the spacing of the
  doubles at its magnitude (\<open>2\<^sup>e\<^sup>-\<^sup>5\<^sup>2\<close> for \<open>2\<^sup>e \<le> a < 2\<^sup>e\<^sup>+\<^sup>1\<close>, and \<open>2\<^sup>-\<^sup>1\<^sup>0\<^sup>7\<^sup>4\<close> below
  \<open>2\<^sup>-\<^sup>1\<^sup>0\<^sup>2\<^sup>2\<close>); a result of magnitude \<open>2\<^sup>1\<^sup>0\<^sup>2\<^sup>4\<close> or more is an infinity.
\<close>

definition rne :: "rat \<Rightarrow> int" where
  "rne q =
     (let f = \<lfloor>q\<rfloor>; d = q - of_int f
      in if d < 1 / 2 then f else if 1 / 2 < d then f + 1 else if even f then f else f + 1)"

text \<open>The number of digits of \<open>n\<close> in base \<open>b\<close>, and \<open>\<lfloor>log\<^sub>b a\<rfloor>\<close> for a rational \<open>a > 0\<close>.\<close>

function digits :: "int \<Rightarrow> int \<Rightarrow> int" where
  "digits b n = (if n \<le> 0 \<or> b < 2 then 0 else 1 + digits b (n div b))"
  by pat_completeness auto
termination
proof (relation "measure (\<lambda>(b, n). nat n)")
  show "wf (measure (\<lambda>(b, n). nat n))" by simp
next
  fix b n :: int
  assume "\<not> (n \<le> 0 \<or> b < 2)"
  then have "0 < n" and "1 < b" by simp_all
  then have "n div b < n" by (rule int_div_less_self)
  moreover have "0 \<le> n div b" using \<open>0 < n\<close> \<open>1 < b\<close> by (simp add: pos_imp_zdiv_nonneg_iff)
  ultimately show "((b, n div b), (b, n)) \<in> measure (\<lambda>(b, n). nat n)"
    using \<open>0 < n\<close> by simp
qed

declare digits.simps [simp del]

definition ilog :: "int \<Rightarrow> rat \<Rightarrow> int" where
  "ilog b a = (if 1 \<le> a then digits b \<lfloor>a\<rfloor> - 1 else - digits b (\<lceil>1 / a\<rceil> - 1))"

definition ulp :: "rat \<Rightarrow> rat" where
  "ulp a = 2 powi (max (ilog 2 a) (- 1022) - 52)"

definition round_b64 :: "rat \<Rightarrow> double" where
  "round_b64 q =
     (let a = \<bar>q\<bar>; r = of_int (rne (a / ulp a)) * ulp a
      in if 2 ^ 1024 \<le> r then (if q < 0 then NInf else PInf)
         else if r = 0 then (if q < 0 then NegZero else Fin 0)
         else Fin (if q < 0 then - r else r))"

text \<open>The values that are doubles: zero, and the multiples of their own spacing below \<open>2\<^sup>1\<^sup>0\<^sup>2\<^sup>4\<close>.\<close>

definition representable :: "rat \<Rightarrow> bool" where
  "representable q =
     (q = 0 \<or> (of_int \<lfloor>\<bar>q\<bar> / ulp \<bar>q\<bar>\<rfloor> = \<bar>q\<bar> / ulp \<bar>q\<bar> \<and> \<bar>q\<bar> < 2 ^ 1024))"


fun is_nan :: "double \<Rightarrow> bool" where
  "is_nan NaN = True"
| "is_nan _ = False"

fun is_inf :: "double \<Rightarrow> bool" where
  "is_inf PInf = True"
| "is_inf NInf = True"
| "is_inf _ = False"

fun is_zero :: "double \<Rightarrow> bool" where
  "is_zero (Fin q) = (q = 0)"
| "is_zero NegZero = True"
| "is_zero _ = False"

fun is_finite :: "double \<Rightarrow> bool" where
  "is_finite (Fin q) = True"
| "is_finite NegZero = True"
| "is_finite _ = False"

text \<open>The sign bit, and the value of a finite double.\<close>

fun signbit :: "double \<Rightarrow> bool" where
  "signbit (Fin q) = (q < 0)"
| "signbit NegZero = True"
| "signbit NInf = True"
| "signbit _ = False"

fun val :: "double \<Rightarrow> rat" where
  "val (Fin q) = q"
| "val _ = 0"

definition zero_of :: "bool \<Rightarrow> double" where
  "zero_of neg = (if neg then NegZero else Fin 0)"

definition inf_of :: "bool \<Rightarrow> double" where
  "inf_of neg = (if neg then NInf else PInf)"

definition d_add :: "double \<Rightarrow> double \<Rightarrow> double" where
  "d_add x y =
     (if is_nan x \<or> is_nan y then NaN
      else if is_inf x \<and> is_inf y then (if x = y then x else NaN)
      else if is_inf x then x
      else if is_inf y then y
      else if val x + val y = 0 then zero_of (signbit x \<and> signbit y \<and> is_zero x \<and> is_zero y)
      else round_b64 (val x + val y))"

definition d_mul :: "double \<Rightarrow> double \<Rightarrow> double" where
  "d_mul x y =
     (if is_nan x \<or> is_nan y then NaN
      else if (is_inf x \<and> is_zero y) \<or> (is_zero x \<and> is_inf y) then NaN
      else if is_inf x \<or> is_inf y then inf_of (signbit x \<noteq> signbit y)
      else if is_zero x \<or> is_zero y then zero_of (signbit x \<noteq> signbit y)
      else round_b64 (val x * val y))"

definition d_div :: "double \<Rightarrow> double \<Rightarrow> double" where
  "d_div x y =
     (if is_nan x \<or> is_nan y then NaN
      else if (is_inf x \<and> is_inf y) \<or> (is_zero x \<and> is_zero y) then NaN
      else if is_inf x \<or> is_zero y then inf_of (signbit x \<noteq> signbit y)
      else if is_inf y \<or> is_zero x then zero_of (signbit x \<noteq> signbit y)
      else round_b64 (val x / val y))"

text \<open>\<^verbatim>\<open>x - y\<close>, and the comparison \<^verbatim>\<open>x == y\<close> (false on a NaN, true on the two zeros).\<close>

definition d_neg :: "double \<Rightarrow> double" where
  "d_neg x =
     (case x of Fin q \<Rightarrow> (if q = 0 then NegZero else Fin (- q)) | NegZero \<Rightarrow> Fin 0
      | PInf \<Rightarrow> NInf | NInf \<Rightarrow> PInf | NaN \<Rightarrow> NaN)"

definition d_sub :: "double \<Rightarrow> double \<Rightarrow> double" where
  "d_sub x y = d_add x (d_neg y)"

definition d_eq :: "double \<Rightarrow> double \<Rightarrow> bool" where
  "d_eq x y =
     (if is_nan x \<or> is_nan y then False
      else if is_inf x \<or> is_inf y then x = y
      else val x = val y)"

section \<open>Text streams\<close>

text \<open>
  What \<^verbatim>\<open>ss << x << '\t'\<close> appends to a \<^verbatim>\<open>std::stringstream\<close>: the text of one number.
  A decimal numeral is kept as its sign and the magnitude it denotes; the other texts are
  \<^verbatim>\<open>inf\<close>, \<^verbatim>\<open>-inf\<close> and \<^verbatim>\<open>nan\<close>. A stream is the list of its lines, each ended by
  \<^verbatim>\<open>std::endl\<close>, and a line is the list of its texts.
\<close>

datatype token = Decimal bool rat | InfText bool | NanText

type_synonym sstream = "token list list"

text \<open>
  The default formatting of a \<^verbatim>\<open>double\<close> (\<^verbatim>\<open>%g\<close> with precision 6): the value is
  rounded to six significant decimal digits, ties to even.
\<close>

definition round6 :: "rat \<Rightarrow> rat" where
  "round6 a = (if a = 0 then 0 else of_int (rne (a / 10 powi (ilog 10 a - 5))) * 10 powi (ilog 10 a - 5))"

fun print_double :: "double \<Rightarrow> token" where
  "print_double (Fin q) = Decimal (q < 0) (round6 \<bar>q\<bar>)"
| "print_double NegZero = Decimal True 0"
| "print_double PInf = InfText False"
| "print_double NInf = InfText True"
| "print_double NaN = NanText"

text \<open>\<^verbatim>\<open>ss << 0\<close> and \<^verbatim>\<open>ss << 1\<close> of \<^verbatim>\<open>identity\<close> print an \<^verbatim>\<open>int\<close>.\<close>

definition print_int :: "int \<Rightarrow> token" where
  "print_int i = Decimal (i < 0) (of_int \<bar>i\<bar>)"

text \<open>
  \<^verbatim>\<open>iss >> a\<close> for a \<^verbatim>\<open>double a\<close>, as the GNU library does it: a decimal numeral is
  converted to the nearest double, and the extraction fails on a numeral that overflows
  and on the texts \<^verbatim>\<open>inf\<close> and \<^verbatim>\<open>nan\<close>.
\<close>

fun parse_double :: "token \<Rightarrow> double option" where
  "parse_double (Decimal neg a) =
     (if a = 0 then Some (zero_of neg)
      else if is_inf (round_b64 (if neg then - a else a)) then None
      else Some (round_b64 (if neg then - a else a)))"
| "parse_double (InfText neg) = None"
| "parse_double NanText = None"

text \<open>\<^verbatim>\<open>for (double a; iss >> a;)\<close>: the numbers of a line up to the first failed extraction.\<close>

fun parse_line :: "token list \<Rightarrow> double list" where
  "parse_line [] = []"
| "parse_line (t # ts) = (case parse_double t of None \<Rightarrow> [] | Some a \<Rightarrow> a # parse_line ts)"

text \<open>
  \<^verbatim>\<open>Matrix::Matrix (std::istream& in)\<close>: the lines are read until an empty line or the end
  of the stream; each one increments the height, inserts its numbers and is compared with
  the width, which the first line with a number fixes.
\<close>

fun Matrix_stream_loop :: "matrix \<Rightarrow> sstream \<Rightarrow> error + matrix" where
  "Matrix_stream_loop m [] = Inr m"
| "Matrix_stream_loop m (line # rest) =
     (if line = [] then Inr m
      else
        (let m1 = m\<lparr>height := height m + 1\<rparr>;
             row = parse_line line;
             numberOfColumns = (word_of_nat (length row) :: dimens_t);
             m2 = m1\<lparr>numbers := insert_cells (numbers m1) (height m1) 1 row\<rparr>
         in if width m2 = 0 then Matrix_stream_loop (m2\<lparr>width := numberOfColumns\<rparr>) rest
            else if width m2 \<noteq> numberOfColumns then Inl NonUniformWidth
            else Matrix_stream_loop m2 rest))"

definition Matrix_stream :: "sstream \<Rightarrow> error + matrix" where
  "Matrix_stream ss = Matrix_stream_loop Matrix_empty ss"

text \<open>A loop that computes a list, one element for each value, and stops at the first exception.\<close>

fun collect :: "('a \<Rightarrow> error + 'b) \<Rightarrow> 'a list \<Rightarrow> error + 'b list" where
  "collect f [] = Inr []"
| "collect f (x # xs) =
     (case f x of
        Inl e \<Rightarrow> Inl e
      | Inr y \<Rightarrow> (case collect f xs of Inl e \<Rightarrow> Inl e | Inr ys \<Rightarrow> Inr (y # ys)))"

text \<open>\<^verbatim>\<open>ss << m (r, c) << '\t'\<close>.\<close>

definition print_cell :: "store \<Rightarrow> mref \<Rightarrow> coord_t \<Rightarrow> coord_t \<Rightarrow> error + token" where
  "print_cell s m r c = (case cell s m r c of Inl e \<Rightarrow> Inl e | Inr v \<Rightarrow> Inr (print_double v))"

text \<open>
  \<^verbatim>\<open>Matrix::transposed\<close>: one line for each column, with the cells of the column from the
  top; the stream is then converted to the \<^verbatim>\<open>Matrix\<close> that is returned.
\<close>

definition transposed_stream :: "store \<Rightarrow> mref \<Rightarrow> error + sstream" where
  "transposed_stream s this =
     collect (\<lambda>c. collect (\<lambda>r. print_cell s this r c) (coords (height_of s this)))
       (coords (width_of s this))"

definition transposed :: "store \<Rightarrow> mref \<Rightarrow> error + matrix" where
  "transposed s this =
     (case transposed_stream s this of Inl e \<Rightarrow> Inl e | Inr ss \<Rightarrow> Matrix_stream ss)"

text \<open>The lines that one operand of \<^verbatim>\<open>operator/\<close> contributes.\<close>

definition rows_stream :: "store \<Rightarrow> mref \<Rightarrow> error + sstream" where
  "rows_stream s matrix =
     collect (\<lambda>r. collect (\<lambda>c. print_cell s matrix r c) (coords (width_of s matrix)))
       (coords (height_of s matrix))"

text \<open>\<^verbatim>\<open>operator/ (const Matrix& lhs, const Matrix& rhs)\<close>, the vertical concatenation.\<close>

definition op_vconcat :: "store \<Rightarrow> mref \<Rightarrow> mref \<Rightarrow> error + matrix" where
  "op_vconcat s lhs rhs =
     (if width_of s lhs \<noteq> width_of s rhs then Inl VConcatWidths
      else
        (case rows_stream s lhs of
           Inl e \<Rightarrow> Inl e
         | Inr upper \<Rightarrow>
             (case rows_stream s rhs of
                Inl e \<Rightarrow> Inl e
              | Inr lower \<Rightarrow> Matrix_stream (upper @ lower))))"

text \<open>
  \<^verbatim>\<open>operator| (const Matrix& lhs, const Matrix& rhs)\<close>, the horizontal concatenation:
  \<^verbatim>\<open>(lhs.transposed() / rhs.transposed()).transposed()\<close>. Both operands of \<^verbatim>\<open>/\<close> throw
  \<^verbatim>\<open>std::out_of_range\<close> or \<^verbatim>\<open>std::invalid_argument\<close> with the same message, so that the
  order of their evaluation does not show.
\<close>

definition op_hconcat :: "store \<Rightarrow> mref \<Rightarrow> mref \<Rightarrow> error + matrix" where
  "op_hconcat s lhs rhs =
     (if height_of s lhs \<noteq> height_of s rhs then Inl HConcatHeights
      else
        (case transposed s lhs of
           Inl e \<Rightarrow> Inl e
         | Inr lt \<Rightarrow>
             (case transposed s rhs of
                Inl e \<Rightarrow> Inl e
              | Inr rt \<Rightarrow>
                  (case op_vconcat s (Tmp lt) (Tmp rt) of
                     Inl e \<Rightarrow> Inl e
                   | Inr stacked \<Rightarrow> transposed s (Tmp stacked)))))"

text \<open>\<^verbatim>\<open>Matrix::identity (dimension)\<close>: row \<open>r\<close> is \<open>r - 1\<close> zeroes, a one, \<open>dimension - r\<close> zeroes.\<close>

definition identity_stream :: "dimens_t \<Rightarrow> sstream" where
  "identity_stream dimension =
     map (\<lambda>r. replicate (unat (r - 1)) (print_int 0) @ [print_int 1]
               @ replicate (unat (dimension - r)) (print_int 0))
       (coords dimension)"

definition identity :: "dimens_t \<Rightarrow> error + matrix" where
  "identity dimension = Matrix_stream (identity_stream dimension)"



section \<open>Determinant\<close>

text \<open>
  The \<^verbatim>\<open>sgn\<close> of \<^verbatim>\<open>_Matrix::determinant\<close>, \<^verbatim>\<open>(columnNo % 2 == 0) ? -1 : 1\<close>, whose
  \<^verbatim>\<open>int\<close> is converted to \<^verbatim>\<open>double\<close> by the product it stands in. (The conversion of the
  column number to \<^verbatim>\<open>int\<close> keeps its parity.)
\<close>

definition sgn_col :: "coord_t \<Rightarrow> double" where
  "sgn_col columnNo = (if even (unat columnNo) then Fin (- 1) else Fin 1)"

text \<open>
  The three branches of the loop over the columns: the value that is added to
  \<^verbatim>\<open>determinant\<close>. \<open>det\<close> is the recursive call \<^verbatim>\<open>Matrix::determinant()\<close> on the minor,
  which gives no value when the recursion is cut off. The operands of a product are
  evaluated from left to right here (C++ leaves the order open where both throw).
\<close>

definition det_term ::
  "(mref \<Rightarrow> (error + double) option) \<Rightarrow> store \<Rightarrow> mref \<Rightarrow> dimens_t \<Rightarrow> coord_t \<Rightarrow> (error + double) option" where
  "det_term det s matrix sideLength columnNo =
     (case cell s matrix 1 columnNo of
        Inl e \<Rightarrow> Some (Inl e)
      | Inr a \<Rightarrow>
          if columnNo = 1 then
            (case MatrixView s matrix 2 2 sideLength sideLength of
               Inl e \<Rightarrow> Some (Inl e)
             | Inr v \<Rightarrow>
                 (case det v of
                    None \<Rightarrow> None
                  | Some (Inl e) \<Rightarrow> Some (Inl e)
                  | Some (Inr d) \<Rightarrow> Some (Inr (d_mul a d))))
          else if columnNo = sideLength then
            (case MatrixView s matrix 2 1 sideLength (sideLength - 1) of
               Inl e \<Rightarrow> Some (Inl e)
             | Inr v \<Rightarrow>
                 (case det v of
                    None \<Rightarrow> None
                  | Some (Inl e) \<Rightarrow> Some (Inl e)
                  | Some (Inr d) \<Rightarrow> Some (Inr (d_mul (d_mul (sgn_col columnNo) a) d))))
          else
            (case MatrixView s matrix 2 1 sideLength (columnNo - 1) of
               Inl e \<Rightarrow> Some (Inl e)
             | Inr l \<Rightarrow>
                 (case MatrixView s matrix 2 (columnNo + 1) sideLength sideLength of
                    Inl e \<Rightarrow> Some (Inl e)
                  | Inr r \<Rightarrow>
                      (case op_hconcat s l r of
                         Inl e \<Rightarrow> Some (Inl e)
                       | Inr cat \<Rightarrow>
                           (case det (Tmp cat) of
                              None \<Rightarrow> None
                            | Some (Inl e) \<Rightarrow> Some (Inl e)
                            | Some (Inr d) \<Rightarrow> Some (Inr (d_mul (d_mul (sgn_col columnNo) a) d)))))))"

text \<open>\<^verbatim>\<open>for (coord_t columnNo : coords) determinant += ...\<close>.\<close>

fun det_columns ::
  "(mref \<Rightarrow> (error + double) option) \<Rightarrow> store \<Rightarrow> mref \<Rightarrow> dimens_t \<Rightarrow> coord_t list \<Rightarrow> double \<Rightarrow>
   (error + double) option" where
  "det_columns det s matrix sideLength [] determinant = Some (Inr determinant)"
| "det_columns det s matrix sideLength (columnNo # rest) determinant =
     (case det_term det s matrix sideLength columnNo of
        None \<Rightarrow> None
      | Some (Inl e) \<Rightarrow> Some (Inl e)
      | Some (Inr t) \<Rightarrow> det_columns det s matrix sideLength rest (d_add determinant t))"

text \<open>The 2 by 2 case: \<^verbatim>\<open>matrix (1, 1) * matrix (2, 2) - matrix (1, 2) * matrix (2, 1)\<close>.\<close>

definition det2 :: "store \<Rightarrow> mref \<Rightarrow> error + double" where
  "det2 s matrix =
     (case cell s matrix 1 1 of Inl e \<Rightarrow> Inl e | Inr a \<Rightarrow>
      case cell s matrix 2 2 of Inl e \<Rightarrow> Inl e | Inr d \<Rightarrow>
      case cell s matrix 1 2 of Inl e \<Rightarrow> Inl e | Inr b \<Rightarrow>
      case cell s matrix 2 1 of Inl e \<Rightarrow> Inl e | Inr c \<Rightarrow>
        Inr (d_sub (d_mul a d) (d_mul b c)))"

text \<open>
  \<^verbatim>\<open>Matrix::determinant()\<close> with \<^verbatim>\<open>_Matrix::determinant\<close> inlined, the depth of the
  recursion bounded by the first argument: \<open>None\<close> when the bound is reached. For a side
  length 0 the source takes \<^verbatim>\<open>coords.begin() + 1\<close> of an empty vector.
\<close>

fun det_fuel :: "nat \<Rightarrow> store \<Rightarrow> mref \<Rightarrow> (error + double) option" where
  "det_fuel 0 s this = None"
| "det_fuel (Suc k) s this =
     (if width_of s this \<noteq> height_of s this then Some (Inl Nonsquare)
      else
        (let sideLength = width_of s this
         in if sideLength = 1 then Some (cell s this 1 1)
            else if sideLength = 2 then Some (det2 s this)
            else if sideLength = 0 then Some (Inl Undefined)
            else det_columns (det_fuel k s) s this sideLength (coords sideLength) (Fin 0)))"

text \<open>
  Each recursive call is on a minor of a smaller side length, so that a bound above the
  width is not reached.
\<close>

definition determinant :: "store \<Rightarrow> mref \<Rightarrow> (error + double) option" where
  "determinant s this = det_fuel (Suc (unat (width_of s this))) s this"





section \<open>Matrices as grids\<close>

text \<open>
  The Matrix with \<open>h\<close> rows and \<open>w\<close> columns whose cell \<open>(i, j)\<close> holds \<open>f i j\<close>; and
  what it means that a reference reads as such a grid through the virtual functions.
\<close>

definition grid_matrix :: "nat \<Rightarrow> nat \<Rightarrow> (nat \<Rightarrow> nat \<Rightarrow> double) \<Rightarrow> matrix" where
  "grid_matrix h w f =
     \<lparr>numbers = (\<lambda>k. if 1 \<le> unat (fst k) \<and> unat (fst k) \<le> h \<and> 1 \<le> unat (snd k) \<and> unat (snd k) \<le> w
                     then Some (f (unat (fst k)) (unat (snd k))) else None),
      width = word_of_nat w, height = word_of_nat h\<rparr>"

definition reads :: "store \<Rightarrow> mref \<Rightarrow> nat \<Rightarrow> nat \<Rightarrow> (nat \<Rightarrow> nat \<Rightarrow> double) \<Rightarrow> bool" where
  "reads s m h w f =
     (height_of s m = word_of_nat h \<and> width_of s m = word_of_nat w \<and> h < 2 ^ 64 \<and> w < 2 ^ 64 \<and>
      (\<forall>i j. 1 \<le> i \<and> i \<le> h \<and> 1 \<le> j \<and> j \<le> w \<longrightarrow>
         cell s m (word_of_nat i) (word_of_nat j) = Inr (f i j)))"

text \<open>
  The round trip of a value through a stream: printed, then extracted again. A value is
  readable when the extraction succeeds, and stable when it gives the value back.
\<close>

definition reparse :: "double \<Rightarrow> double option" where
  "reparse x = parse_double (print_double x)"

definition readable :: "double \<Rightarrow> bool" where
  "readable x = (reparse x \<noteq> None)"

definition stable :: "double \<Rightarrow> bool" where
  "stable x = (reparse x = Some x)"

definition text_round :: "double \<Rightarrow> double" where
  "text_round x = (case reparse x of Some y \<Rightarrow> y | None \<Rightarrow> x)"



section \<open>The row and column addressor\<close>

text \<open>\<^verbatim>\<open>std::to_string\<close> of an \<^verbatim>\<open>unsigned long long\<close>: its decimal digits.\<close>

fun to_string :: "nat \<Rightarrow> string" where
  "to_string n =
     (if n < 10 then [char_of (48 + n)] else to_string (n div 10) @ [char_of (48 + n mod 10)])"

declare to_string.simps [simp del]

text \<open>
  \<^verbatim>\<open>std::stoll\<close> in base 10, which is \<^verbatim>\<open>strtoll\<close>: leading white space is skipped, one
  sign is taken, then the longest run of digits; what follows is ignored. No digit at all
  is \<^verbatim>\<open>std::invalid_argument\<close>, a value that is no \<^verbatim>\<open>long long\<close> is \<^verbatim>\<open>std::out_of_range\<close>.
\<close>

definition isspace :: "char \<Rightarrow> bool" where
  "isspace ch = ((of_char ch :: nat) = 32 \<or> (9 \<le> (of_char ch :: nat) \<and> (of_char ch :: nat) \<le> 13))"

definition isdigit :: "char \<Rightarrow> bool" where
  "isdigit ch = (48 \<le> (of_char ch :: nat) \<and> (of_char ch :: nat) \<le> 57)"

definition digits_value :: "string \<Rightarrow> int" where
  "digits_value ds = foldl (\<lambda>acc ch. 10 * acc + (of_char ch - 48)) 0 ds"

definition stoll :: "string \<Rightarrow> error + int" where
  "stoll str =
     (let s1 = dropWhile isspace str;
          neg = (case s1 of [] \<Rightarrow> False | ch # _ \<Rightarrow> ch = CHR ''-'');
          s2 = (case s1 of [] \<Rightarrow> [] | ch # t \<Rightarrow> if ch = CHR ''-'' \<or> ch = CHR ''+'' then t else s1);
          ds = takeWhile isdigit s2;
          v = (if neg then - digits_value ds else digits_value ds)
      in if ds = [] then Inl StollInvalid
         else if v < - (2 ^ 63) \<or> 2 ^ 63 - 1 < v then Inl StollRange
         else Inr v)"

text \<open>
  \<^verbatim>\<open>operator> (const Matrix& lhs, const std::string& rhs)\<close>: the number is extracted first
  (\<^verbatim>\<open>coord_t number = std::stoll (rhs.substr (1))\<close>, the \<^verbatim>\<open>long long\<close> converted to 64
  bits without a sign), then \<^verbatim>\<open>rhs.at (0)\<close> selects the row view, the column view or the
  exception.
\<close>

definition op_gt :: "store \<Rightarrow> mref \<Rightarrow> string \<Rightarrow> error + mref" where
  "op_gt s lhs rhs =
     (case rhs of
        [] \<Rightarrow> Inl SubstrRange
      | ch # rest \<Rightarrow>
          (case stoll rest of
             Inl e \<Rightarrow> Inl e
           | Inr v \<Rightarrow>
               (let number = (word_of_int v :: coord_t) in
                if ch = CHR ''R'' then MatrixView s lhs number 1 number (width_of s lhs)
                else if ch = CHR ''C'' then MatrixView s lhs 1 number (height_of s lhs) number
                else Inl AddressFormat)))"

text \<open>
  The offsets that \<^verbatim>\<open>setAt\<close> visits, in the order of its loops; the cell of the receiver
  that an offset is written to; and the offsets visited before the first one whose target
  lies outside the receiver.
\<close>

definition offsets :: "dimens_t \<Rightarrow> dimens_t \<Rightarrow> (coord_t \<times> coord_t) list" where
  "offsets h w = concat (map (\<lambda>rOffset. map (Pair rOffset) (coords w)) (coords h))"





section \<open>Copies and the matrix product\<close>

text \<open>
  The loops of \<^verbatim>\<open>Matrix::operator=\<close>, \<^verbatim>\<open>map[{r, c}] = rhs (r, c)\<close> for the rows and the
  columns of \<open>rhs\<close>, which is read through its virtual functions: the map that they build,
  or the exception of the first cell that \<open>rhs\<close> does not have.
\<close>

definition map_put ::
  "(coord_t \<times> coord_t \<rightharpoonup> double) \<Rightarrow> (coord_t \<times> coord_t) \<times> double \<Rightarrow> (coord_t \<times> coord_t \<rightharpoonup> double)" where
  "map_put m kv = m(fst kv \<mapsto> snd kv)"

definition copy_cells :: "store \<Rightarrow> mref \<Rightarrow> error + (coord_t \<times> coord_t \<rightharpoonup> double)" where
  "copy_cells s rhs =
     (case collect (\<lambda>p. case cell s rhs (fst p) (snd p) of Inl e \<Rightarrow> Inl e | Inr v \<Rightarrow> Inr (p, v))
             (offsets (height_of s rhs) (width_of s rhs)) of
        Inl e \<Rightarrow> Inl e
      | Inr kvs \<Rightarrow> Inr (foldl map_put Map.empty kvs))"

text \<open>
  \<^verbatim>\<open>Matrix::Matrix (const Matrix& toCopy)\<close>, which is \<^verbatim>\<open>(*this) = toCopy\<close> on an empty
  Matrix: the object that \<^verbatim>\<open>Matrix tmp = *this\<close> declares.
\<close>

definition Matrix_copy :: "store \<Rightarrow> mref \<Rightarrow> error + matrix" where
  "Matrix_copy s toCopy =
     (case copy_cells s toCopy of
        Inl e \<Rightarrow> Inl e
      | Inr m \<Rightarrow> Inr \<lparr>numbers = m, width = width_of s toCopy, height = height_of s toCopy\<rparr>)"

text \<open>
  \<^verbatim>\<open>Matrix::operator= (const Matrix& rhs)\<close> on the object \<open>a\<close> of the store: nothing for a
  self-assignment; otherwise the dimensions are copied first, then the cells are read into
  a local map, and the map is stored last. An exception of the loops leaves the new
  dimensions with the old cells.
\<close>

definition Matrix_assign :: "store \<Rightarrow> nat \<Rightarrow> mref \<Rightarrow> error option \<times> store" where
  "Matrix_assign s a rhs =
     (if rhs = Obj a then (None, s)
      else
        (let s1 = s[a := (s ! a)\<lparr>width := width_of s rhs, height := height_of s rhs\<rparr>]
         in case copy_cells s1 rhs of
              Inl e \<Rightarrow> (Some e, s1)
            | Inr m \<Rightarrow> (None, s1[a := (s1 ! a)\<lparr>numbers := m\<rparr>])))"

text \<open>
  The virtual \<^verbatim>\<open>operator= (const Matrix&)\<close>. The library assigns to no temporary.
\<close>

fun assign :: "store \<Rightarrow> mref \<Rightarrow> mref \<Rightarrow> error option \<times> store" where
  "assign s (Obj a) rhs = Matrix_assign s a rhs"
| "assign s (Tmp m) rhs = (None, s)"
| "assign s (View m hr hc w h) rhs = MatrixView_assign s (View m hr hc w h) rhs"

text \<open>
  A local object of a function lives at the end of the store while the body runs; the
  function returns the exception of the body or the value of the local, and the local is
  gone from the store afterwards.
\<close>

definition with_local ::
  "store \<Rightarrow> matrix \<Rightarrow> (store \<Rightarrow> mref \<Rightarrow> error option \<times> store) \<Rightarrow> (error + matrix) \<times> store" where
  "with_local s tmp body =
     (case body (s @ [tmp]) (Obj (length s)) of
        (Some e, s') \<Rightarrow> (Inl e, take (length s) s')
      | (None, s') \<Rightarrow> (Inr (s' ! length s), take (length s) s'))"

text \<open>
  The dot product of \<^verbatim>\<open>operator*=\<close>, \<^verbatim>\<open>num += leftRow (1, i) * rightTransposedColumn (1, i)\<close>
  for \<open>i\<close> from 1 to the width: the product is rounded, then the sum (the operands of the
  product are read from left to right here; both throw \<^verbatim>\<open>std::out_of_range\<close>).
\<close>

fun dot :: "store \<Rightarrow> mref \<Rightarrow> mref \<Rightarrow> coord_t list \<Rightarrow> double \<Rightarrow> error + double" where
  "dot s leftRow rightTransposedColumn [] num = Inr num"
| "dot s leftRow rightTransposedColumn (i # rest) num =
     (case cell s leftRow 1 i of
        Inl e \<Rightarrow> Inl e
      | Inr a \<Rightarrow>
          (case cell s rightTransposedColumn 1 i of
             Inl e \<Rightarrow> Inl e
           | Inr b \<Rightarrow> dot s leftRow rightTransposedColumn rest (d_add num (d_mul a b))))"

text \<open>
  The body of the loops of \<^verbatim>\<open>operator*= (const Matrix& rhs)\<close> for the row \<open>r\<close> and the
  column \<open>c\<close>: the row of the left operand is a view, the column of the right operand is
  transposed into a Matrix of its own, and the text of the dot product goes to the stream.
\<close>

definition mul_cell :: "store \<Rightarrow> mref \<Rightarrow> mref \<Rightarrow> coord_t \<Rightarrow> coord_t \<Rightarrow> error + token" where
  "mul_cell s this rhs r c =
     (case op_gt s this (CHR ''R'' # to_string (unat r)) of
        Inl e \<Rightarrow> Inl e
      | Inr leftRow \<Rightarrow>
          (case op_gt s rhs (CHR ''C'' # to_string (unat c)) of
             Inl e \<Rightarrow> Inl e
           | Inr column \<Rightarrow>
               (case transposed s column of
                  Inl e \<Rightarrow> Inl e
                | Inr rightTransposedColumn \<Rightarrow>
                    (case dot s leftRow (Tmp rightTransposedColumn) (coords (width_of s this)) (Fin 0) of
                       Inl e \<Rightarrow> Inl e
                     | Inr num \<Rightarrow> Inr (print_double num)))))"

text \<open>
  \<^verbatim>\<open>Matrix::operator*= (const Matrix& rhs)\<close>: the test of the shapes, the stream of the dot
  products, the Matrix \<^verbatim>\<open>tmp (ss)\<close> that is read from the stream, and \<^verbatim>\<open>*this = tmp\<close>.
\<close>

definition op_mul_assign :: "store \<Rightarrow> mref \<Rightarrow> mref \<Rightarrow> error option \<times> store" where
  "op_mul_assign s this rhs =
     (if width_of s this \<noteq> height_of s rhs then (Some MulShape, s)
      else
        (case collect (\<lambda>r. collect (\<lambda>c. mul_cell s this rhs r c) (coords (width_of s rhs)))
                (coords (height_of s this)) of
           Inl e \<Rightarrow> (Some e, s)
         | Inr ss \<Rightarrow>
             (case Matrix_stream ss of
                Inl e \<Rightarrow> (Some e, s)
              | Inr tmp \<Rightarrow> assign s this (Tmp tmp))))"

text \<open>
  \<^verbatim>\<open>Matrix::operator* (const Matrix& rhs) const\<close>: \<^verbatim>\<open>Matrix tmp = *this; tmp *= rhs; return tmp;\<close>.
\<close>

definition op_mul :: "store \<Rightarrow> mref \<Rightarrow> mref \<Rightarrow> (error + matrix) \<times> store" where
  "op_mul s this rhs =
     (case Matrix_copy s this of
        Inl e \<Rightarrow> (Inl e, s)
      | Inr tmp \<Rightarrow> with_local s tmp (\<lambda>s' local. op_mul_assign s' local rhs))"

text \<open>
  The product in the words of the specification: the cell \<open>(r, c)\<close> is the sum over \<open>k\<close> of
  \<open>a r k \<cdot> b k c\<close>, computed in doubles from zero, \<open>k\<close> ascending.
\<close>

definition dot_product :: "nat \<Rightarrow> (nat \<Rightarrow> double) \<Rightarrow> (nat \<Rightarrow> double) \<Rightarrow> double" where
  "dot_product n a b = foldl (\<lambda>num k. d_add num (d_mul (a k) (b k))) (Fin 0) [1..<Suc n]"

section \<open>Loops, coordinates and the store\<close>









lemma set_coords: "set (coords n) = {x. 1 \<le> x \<and> x \<le> n}"
proof (rule set_eqI)
  fix x :: coord_t
  show "x \<in> set (coords n) \<longleftrightarrow> x \<in> {x. 1 \<le> x \<and> x \<le> n}"
  proof
    assume "x \<in> set (coords n)"
    then obtain k where k: "1 \<le> k" "k \<le> unat n" "x = word_of_nat k"
      by (auto simp: coords_def)
    have "unat x = k" using k(2,3) le_unat_uoi [of k n] by simp
    then show "x \<in> {x. 1 \<le> x \<and> x \<le> n}"
      using k by (simp add: word_le_nat_alt)
  next
    assume "x \<in> {x. 1 \<le> x \<and> x \<le> n}"
    then have "1 \<le> unat x" "unat x \<le> unat n"
      by (simp_all add: word_le_nat_alt)
    then have "unat x \<in> set [1..<Suc (unat n)]" by auto
    then have "word_of_nat (unat x) \<in> set (coords n)"
      unfolding coords_def by (metis image_eqI set_map)
    then show "x \<in> set (coords n)" by simp
  qed
qed






lemma base_width: "base m \<noteq> Some a \<Longrightarrow> width_of (s[a := x]) m = width_of s m"
  by (cases m) auto

lemma base_height: "base m \<noteq> Some a \<Longrightarrow> height_of (s[a := x]) m = height_of s m"
  by (cases m) auto

lemma inside_numbers_update [simp]: "inside (m\<lparr>numbers := f\<rparr>) = inside m"
  by (simp add: inside_def fun_eq_iff)







lemma set_offsets: "set (offsets h w) = {p. 1 \<le> fst p \<and> fst p \<le> h \<and> 1 \<le> snd p \<and> snd p \<le> w}"
  by (auto simp: offsets_def set_coords)


section \<open>Properties of views\<close>

lemma cell_View_Obj:
  "cell s (View (Obj a) r1 c1 w h) r c = map_at (numbers (s ! a)) (r1 + r - 1) (c1 + c - 1)"
  by simp


lemma MatrixView_fails_iff:
  "(MatrixView s m r1 c1 r2 c2 = Inl e) =
   (e = ViewOutside \<and>
    (height_of s m < r1 \<or> height_of s m < r2 \<or> width_of s m < c1 \<or> width_of s m < c2))"
  by (auto simp: MatrixView_def)

lemma Matrix_of_3x3:
  "Matrix_of [[Fin 1, Fin 2, Fin 3], [Fin 4, Fin 5, Fin 6], [Fin 7, Fin 8, Fin 9]] =
   \<lparr>numbers = [(1, 1) \<mapsto> Fin 1, (1, 2) \<mapsto> Fin 2, (1, 3) \<mapsto> Fin 3,
               (2, 1) \<mapsto> Fin 4, (2, 2) \<mapsto> Fin 5, (2, 3) \<mapsto> Fin 6,
               (3, 1) \<mapsto> Fin 7, (3, 2) \<mapsto> Fin 8, (3, 3) \<mapsto> Fin 9],
    width = 3, height = 3\<rparr>"
  by (simp add: Matrix_of_def Matrix_init_def Matrix_empty_def map_insert_def)

lemma Matrix_of_2x2:
  "Matrix_of [[a, b], [c, d]] =
   \<lparr>numbers = [(1, 1) \<mapsto> a, (1, 2) \<mapsto> b, (2, 1) \<mapsto> c, (2, 2) \<mapsto> d], width = 2, height = 2\<rparr>"
  by (simp add: Matrix_of_def Matrix_init_def Matrix_empty_def map_insert_def)

lemma wf_Matrix_of_2x2: "wf_matrix (Matrix_of [[a, b], [c, d]])"
proof -
  have "(numbers (Matrix_of [[a, b], [c, d]]) (r, k) \<noteq> None) = inside (Matrix_of [[a, b], [c, d]]) r k"
    for r k
    unfolding Matrix_of_2x2 inside_def
    by (simp add: word_le_nat_alt word_unat_eq_iff) arith
  then show ?thesis
    unfolding wf_matrix_def by blast
qed

text \<open>
  C5. The constructor of a view is claimed to reject every rectangle that does not satisfy
  \<open>1 \<le> r1 \<le> r2 \<le> height\<close> and \<open>1 \<le> c1 \<le> c2 \<le> width\<close>. The source tests the four
  upper bounds only: over a 3 by 3 matrix it accepts a first row 0, a first column 0, a
  first row below the last one and a first column right of the last one, and the views it
  builds then have the heights and widths \<open>r2 - r1 + 1\<close> and \<open>c2 - c1 + 1\<close> of 64-bit
  arithmetic.
\<close>

theorem MatrixView_accepts_zero_and_reversed:
  "MatrixView [Matrix_of [[Fin 1, Fin 2, Fin 3], [Fin 4, Fin 5, Fin 6], [Fin 7, Fin 8, Fin 9]]]
     (Obj 0) 0 1 1 1 = Inr (View (Obj 0) 0 1 1 2)
   \<and> MatrixView [Matrix_of [[Fin 1, Fin 2, Fin 3], [Fin 4, Fin 5, Fin 6], [Fin 7, Fin 8, Fin 9]]]
     (Obj 0) 1 0 1 1 = Inr (View (Obj 0) 1 0 2 1)
   \<and> MatrixView [Matrix_of [[Fin 1, Fin 2, Fin 3], [Fin 4, Fin 5, Fin 6], [Fin 7, Fin 8, Fin 9]]]
     (Obj 0) 3 1 2 1 = Inr (View (Obj 0) 3 1 1 0)
   \<and> MatrixView [Matrix_of [[Fin 1, Fin 2, Fin 3], [Fin 4, Fin 5, Fin 6], [Fin 7, Fin 8, Fin 9]]]
     (Obj 0) 1 3 1 2 = Inr (View (Obj 0) 1 3 0 1)"
  by (simp add: MatrixView_def Matrix_of_3x3)

text \<open>
  C10. A view does not test its own bounds. Whatever its width and height are, reading or
  writing its local cell \<open>(r, c)\<close> succeeds exactly when the translated cell
  \<open>(r1 + r - 1, c1 + c - 1)\<close> (64-bit arithmetic) lies within the source Matrix, and then
  it reads or writes that cell of the source; otherwise \<^verbatim>\<open>std::out_of_range\<close> is thrown.
\<close>

theorem view_access_unchecked:
  "a < length s \<Longrightarrow> wf_matrix (s ! a) \<Longrightarrow>
   cell s (View (Obj a) r1 c1 w h) r c =
     (if inside (s ! a) (r1 + r - 1) (c1 + c - 1)
      then Inr (the (numbers (s ! a) (r1 + r - 1, c1 + c - 1)))
      else Inl OutOfRange)
   \<and> set_cell s (View (Obj a) r1 c1 w h) r c v =
     (if inside (s ! a) (r1 + r - 1) (c1 + c - 1)
      then Inr (s[a := (s ! a)\<lparr>numbers := (numbers (s ! a))((r1 + r - 1, c1 + c - 1) \<mapsto> v)\<rparr>])
      else Inl OutOfRange)"
proof -
  assume wf: "wf_matrix (s ! a)"
  have key: "(numbers (s ! a) (r1 + r - 1, c1 + c - 1) \<noteq> None) = inside (s ! a) (r1 + r - 1) (c1 + c - 1)"
    using wf unfolding wf_matrix_def by blast
  show ?thesis
    using key by (cases "numbers (s ! a) (r1 + r - 1, c1 + c - 1)") (simp_all add: map_at_def)
qed

theorem view_access_unchecked_witness:
  "cell [Matrix_of [[Fin 1, Fin 2], [Fin 3, Fin 4]]] (View (Obj 0) 1 1 1 1) 2 2 = Inr (Fin 4)
   \<and> set_cell [Matrix_of [[Fin 1, Fin 2], [Fin 3, Fin 4]]] (View (Obj 0) 1 1 1 1) 2 2 (Fin 9)
       = Inr [Matrix_of [[Fin 1, Fin 2], [Fin 3, Fin 9]]]
   \<and> cell [Matrix_of [[Fin 1, Fin 2], [Fin 3, Fin 4]]] (View (Obj 0) 2 2 1 1) 1 2 = Inl OutOfRange"
  using view_access_unchecked [of 0 "[Matrix_of [[Fin 1, Fin 2], [Fin 3, Fin 4]]]" 1 1 1 1 2 2 "Fin 9"]
    view_access_unchecked [of 0 "[Matrix_of [[Fin 1, Fin 2], [Fin 3, Fin 4]]]" 2 2 1 1 1 2 "Fin 9"]
    wf_Matrix_of_2x2 [of "Fin 1" "Fin 2" "Fin 3" "Fin 4"]
  by (simp add: inside_def Matrix_of_2x2)

section \<open>Overlaying a matrix\<close>




section \<open>Constructing a Matrix from rows and from a stream\<close>

lemma unat_of_nat64: "n < 2 ^ 64 \<Longrightarrow> unat (word_of_nat n :: coord_t) = n"
  by (simp add: unat_of_nat)

lemma of_nat_eq_iff64: "n < 2 ^ 64 \<Longrightarrow> ((x :: coord_t) = word_of_nat n) = (unat x = n)"
proof -
  assume n: "n < 2 ^ 64"
  show ?thesis
  proof
    assume "x = word_of_nat n"
    then show "unat x = n" using n by (simp add: unat_of_nat64)
  next
    assume "unat x = n"
    then have "(word_of_nat (unat x) :: coord_t) = word_of_nat n" by simp
    then show "x = word_of_nat n" by simp
  qed
qed

lemma map_insert_apply:
  "map_insert m k v k' = (if k' = k \<and> m k = None then Some v else m k')"
  by (auto simp: map_insert_def split: option.splits)

lemma unat_succ: "unat c + 1 < 2 ^ 64 \<Longrightarrow> unat (c + 1) = unat c + 1" for c :: coord_t
proof -
  assume "unat c + 1 < 2 ^ 64"
  then have "unat c + unat (1 :: coord_t) < 2 ^ LENGTH(64)" by simp
  then have "unat (c + 1) = unat c + unat (1 :: coord_t)" by (simp only: unat_add_lem)
  then show ?thesis by simp
qed

lemma insert_cells_apply:
  "unat c + length vs \<le> 2 ^ 64 \<Longrightarrow>
   insert_cells m r c vs k =
     (if fst k = r \<and> unat c \<le> unat (snd k) \<and> unat (snd k) < unat c + length vs \<and> m k = None
      then Some (vs ! (unat (snd k) - unat c)) else m k)"
proof (induction vs arbitrary: m c)
  case Nil
  then show ?case by simp
next
  case (Cons v vs)
  show ?case
  proof (cases "vs = []")
    case True
    have "(fst k = r \<and> unat c \<le> unat (snd k) \<and> unat (snd k) < unat c + 1) = (k = (r, c))"
      by (cases k) (auto simp: word_unat_eq_iff)
    then show ?thesis using True by (cases "k = (r, c)") (auto simp: map_insert_apply)
  next
    case False
    then have "0 < length vs" by simp
    then have lt: "unat c + 1 < 2 ^ 64" using Cons.prems by (cases vs) simp_all
    have c1: "unat (c + 1) = unat c + 1" using lt by (rule unat_succ)
    have "unat (c + 1) + length vs \<le> 2 ^ 64" using Cons.prems c1 by simp
    note IH = Cons.IH [OF this, of "map_insert m (r, c) v"]
    have kc: "(k = (r, c)) = (fst k = r \<and> unat (snd k) = unat c)"
      by (cases k) (auto simp: word_unat_eq_iff)
    show ?thesis
    proof (cases "k = (r, c)")
      case True
      have mk: "map_insert m (r, c) v k = (if m k = None then Some v else m k)"
        using True by (simp add: map_insert_apply)
      have "insert_cells (map_insert m (r, c) v) r (c + 1) vs k = map_insert m (r, c) v k"
        using IH True c1 by simp
      then show ?thesis using mk True by simp
    next
      case False
      then have ne: "fst k = r \<Longrightarrow> unat (snd k) \<noteq> unat c" using kc by simp
      have m': "map_insert m (r, c) v k = m k" using False by (simp add: map_insert_apply)
      show ?thesis
      proof (cases "fst k = r \<and> unat c \<le> unat (snd k) \<and> unat (snd k) < unat c + length (v # vs) \<and> m k = None")
        case True
        then have "unat c + 1 \<le> unat (snd k)" using ne by auto
        moreover from this have "(v # vs) ! (unat (snd k) - unat c) = vs ! (unat (snd k) - (unat c + 1))"
          by (metis Suc_diff_le Suc_eq_plus1 diff_Suc_Suc nth_Cons_Suc)
        ultimately show ?thesis using True IH c1 m' by simp
      next
        case False
        then show ?thesis using IH c1 m' by auto
      qed
    qed
  qed
qed

lemma grid_add_row:
  assumes "Suc i < 2 ^ 64" and "w < 2 ^ 64"
  shows "insert_cells (numbers (grid_matrix i w F)) (word_of_nat (Suc i)) 1 (map (F (Suc i)) [1..<Suc w])
         = numbers (grid_matrix (Suc i) w F)"
proof (rule ext)
  fix k :: "coord_t \<times> coord_t"
  have len: "unat (1 :: coord_t) + length (map (F (Suc i)) [1..<Suc w]) \<le> 2 ^ 64"
    using assms(2) by simp
  have row: "(fst k = word_of_nat (Suc i)) = (unat (fst k) = Suc i)"
    using assms(1) by (rule of_nat_eq_iff64)
  show "insert_cells (numbers (grid_matrix i w F)) (word_of_nat (Suc i)) 1 (map (F (Suc i)) [1..<Suc w]) k
         = numbers (grid_matrix (Suc i) w F) k"
    unfolding insert_cells_apply [OF len] row
    by (auto simp: grid_matrix_def nth_append simp del: upt_Suc)
qed

lemma grid_numbers:
  "numbers (grid_matrix h w f) (r, c) =
     (if 1 \<le> unat r \<and> unat r \<le> h \<and> 1 \<le> unat c \<and> unat c \<le> w then Some (f (unat r) (unat c)) else None)"
  by (simp add: grid_matrix_def)

lemma grid_dims [simp]:
  "width (grid_matrix h w f) = word_of_nat w" "height (grid_matrix h w f) = word_of_nat h"
  by (simp_all add: grid_matrix_def)





lemma grid_zero_rows: "grid_matrix 0 0 f = Matrix_empty"
  by (simp add: grid_matrix_def Matrix_empty_def fun_eq_iff)

lemma reads_grid:
  "h < 2 ^ 64 \<Longrightarrow> w < 2 ^ 64 \<Longrightarrow> reads s (Tmp (grid_matrix h w f)) h w f"
  by (simp add: reads_def map_at_def grid_numbers unat_of_nat64)

lemma reads_grid_Obj:
  "h < 2 ^ 64 \<Longrightarrow> w < 2 ^ 64 \<Longrightarrow> s ! a = grid_matrix h w f \<Longrightarrow> reads s (Obj a) h w f"
  by (simp add: reads_def map_at_def grid_numbers unat_of_nat64)



lemma matrix_eqI:
  "numbers m = numbers m' \<Longrightarrow> width m = width m' \<Longrightarrow> height m = height m' \<Longrightarrow> m = m'"
  for m m' :: matrix
  by (cases m; cases m') simp




section \<open>Assigning to a view\<close>












lemma parse_line_all:
  "\<forall>t \<in> set ts. parse_double t = Some (g t) \<Longrightarrow> parse_line ts = map g ts"
  by (induction ts) auto

lemma collect_all:
  "\<forall>x \<in> set xs. f x = Inr (g x) \<Longrightarrow> collect f xs = Inr (map g xs)"
  by (induction xs) auto

lemma collect_fail:
  "collect f xs = Inl e \<Longrightarrow> \<exists>x \<in> set xs. f x = Inl e"
  by (induction xs) (auto split: sum.splits)

lemma of_nat_succ64: "(word_of_nat i :: coord_t) + 1 = word_of_nat (Suc i)"
  by simp

lemma width_update_last:
  "width m = x \<Longrightarrow> m\<lparr>height := a, numbers := n, width := x\<rparr> = m\<lparr>height := a, numbers := n\<rparr>"
  for m :: matrix
  by (cases m) simp

text \<open>the lines of a stream, all of one length and all of numerals that can be read\<close>
lemma Matrix_stream_loop_grid:
  assumes "1 \<le> w" and "w < 2 ^ 64" and "i + n < 2 ^ 64"
    and "\<forall>k j. i < k \<and> k \<le> i + n \<and> 1 \<le> j \<and> j \<le> w \<longrightarrow> parse_double (tk k j) = Some (F k j)"
    and "numbers m = numbers (grid_matrix i w F)" and "height m = word_of_nat i"
    and "width m = (if i = 0 then 0 else word_of_nat w)"
  shows "\<exists>m'. Matrix_stream_loop m (map (\<lambda>k. map (tk k) [1..<Suc w]) [Suc i..<Suc (i + n)]) = Inr m' \<and>
           numbers m' = numbers (grid_matrix (i + n) w F) \<and>
           height m' = word_of_nat (i + n) \<and>
           width m' = (if i + n = 0 then 0 else word_of_nat w)"
  using assms
proof (induction n arbitrary: i m)
  case 0
  then show ?case by simp
next
  case (Suc n)
  have si: "Suc i < 2 ^ 64" using Suc.prems(3) by simp
  have lines: "map (\<lambda>k. map (tk k) [1..<Suc w]) [Suc i..<Suc (i + Suc n)]
      = map (tk (Suc i)) [1..<Suc w] # map (\<lambda>k. map (tk k) [1..<Suc w]) [Suc (Suc i)..<Suc (Suc i + n)]"
    by (simp add: upt_conv_Cons del: upt_Suc)
  have nonempty: "map (tk (Suc i)) [1..<Suc w] \<noteq> []" using Suc.prems(1) by simp
  have "\<forall>t \<in> set [1..<Suc w]. parse_double (tk (Suc i) t) = Some (F (Suc i) t)"
    using Suc.prems(4) by auto
  then have "\<forall>t \<in> set (map (tk (Suc i)) [1..<Suc w]). parse_double t = Some (the (parse_double t))"
    by auto
  then have "parse_line (map (tk (Suc i)) [1..<Suc w]) = map (\<lambda>t. the (parse_double t)) (map (tk (Suc i)) [1..<Suc w])"
    by (rule parse_line_all)
  also have "\<dots> = map (F (Suc i)) [1..<Suc w]"
    using Suc.prems(4) by (auto simp del: upt_Suc)
  finally have row: "parse_line (map (tk (Suc i)) [1..<Suc w]) = map (F (Suc i)) [1..<Suc w]" .
  have ins: "insert_cells (numbers m) (word_of_nat (Suc i)) 1 (map (F (Suc i)) [1..<Suc w])
             = numbers (grid_matrix (Suc i) w F)"
    unfolding Suc.prems(5) using grid_add_row [OF si Suc.prems(2), of F] by simp
  have w0: "(word_of_nat w :: coord_t) \<noteq> 0"
    using Suc.prems(1,2) of_nat_eq_iff64 [of w 0] by auto
  have lenw: "length (map (F (Suc i)) [1..<Suc w]) = w" by simp
  let ?m2 = "m\<lparr>height := word_of_nat (Suc i), numbers := numbers (grid_matrix (Suc i) w F),
                 width := word_of_nat w\<rparr>"
  have IH: "\<exists>m'. Matrix_stream_loop ?m2 (map (\<lambda>k. map (tk k) [1..<Suc w]) [Suc (Suc i)..<Suc (Suc i + n)]) = Inr m' \<and>
           numbers m' = numbers (grid_matrix (Suc i + n) w F) \<and>
           height m' = word_of_nat (Suc i + n) \<and>
           width m' = (if Suc i + n = 0 then 0 else word_of_nat w)"
  proof (rule Suc.IH)
    show "1 \<le> w" "w < 2 ^ 64" by (rule Suc.prems)+
    show "Suc i + n < 2 ^ 64" using Suc.prems(3) by simp
    show "\<forall>k j. Suc i < k \<and> k \<le> Suc i + n \<and> 1 \<le> j \<and> j \<le> w \<longrightarrow> parse_double (tk k j) = Some (F k j)"
      using Suc.prems(4) by simp
    show "numbers ?m2 = numbers (grid_matrix (Suc i) w F)" by simp
    show "height ?m2 = word_of_nat (Suc i)" by simp
    show "width ?m2 = (if Suc i = 0 then 0 else word_of_nat w)" by simp
  qed
  have step: "Matrix_stream_loop m (map (tk (Suc i)) [1..<Suc w] # rest) = Matrix_stream_loop ?m2 rest" for rest
  proof (cases "width m = 0")
    case True
    show ?thesis
      unfolding Matrix_stream_loop.simps Let_def row
      using nonempty ins Suc.prems(6) True
      by (simp add: add.commute del: upt_Suc)
  next
    case False
    then have wm: "width m = word_of_nat w" using Suc.prems(7) by (simp split: if_splits)
    show ?thesis
      unfolding Matrix_stream_loop.simps Let_def row
      using nonempty ins Suc.prems(6) False wm
      by (simp add: add.commute width_update_last del: upt_Suc)
  qed
  show ?case unfolding lines step using IH by simp
qed

lemma Matrix_stream_grid:
  assumes "1 \<le> w" and "w < 2 ^ 64" and "h < 2 ^ 64"
    and "\<forall>k j. 1 \<le> k \<and> k \<le> h \<and> 1 \<le> j \<and> j \<le> w \<longrightarrow> parse_double (tk k j) = Some (F k j)"
  shows "Matrix_stream (map (\<lambda>k. map (tk k) [1..<Suc w]) [1..<Suc h])
         = Inr (grid_matrix h (if h = 0 then 0 else w) F)"
proof -
  have "\<exists>m'. Matrix_stream_loop Matrix_empty (map (\<lambda>k. map (tk k) [1..<Suc w]) [Suc 0..<Suc (0 + h)]) = Inr m' \<and>
           numbers m' = numbers (grid_matrix (0 + h) w F) \<and>
           height m' = word_of_nat (0 + h) \<and>
           width m' = (if 0 + h = 0 then 0 else word_of_nat w)"
    by (rule Matrix_stream_loop_grid)
       (use assms in \<open>simp_all add: Matrix_empty_def grid_matrix_def fun_eq_iff\<close>)
  then obtain m' where m': "Matrix_stream (map (\<lambda>k. map (tk k) [1..<Suc w]) [1..<Suc h]) = Inr m'"
      "numbers m' = numbers (grid_matrix h w F)"
      "height m' = word_of_nat h"
      "width m' = (if h = 0 then 0 else word_of_nat w)"
    by (auto simp: Matrix_stream_def)
  have "m' = grid_matrix h (if h = 0 then 0 else w) F"
    by (rule matrix_eqI) (use m' in \<open>auto simp: grid_matrix_def fun_eq_iff\<close>)
  then show ?thesis using m'(1) by simp
qed

lemma readable_reparse: "readable x \<Longrightarrow> reparse x = Some (text_round x)"
  by (auto simp: readable_def text_round_def)



lemma coords_of_nat: "n < 2 ^ 64 \<Longrightarrow> coords (word_of_nat n) = map word_of_nat [1..<Suc n]"
  by (simp add: coords_def unat_of_nat64)

lemma reads_height: "reads s m h w f \<Longrightarrow> height_of s m = word_of_nat h \<and> h < 2 ^ 64"
  by (simp add: reads_def)

lemma reads_width: "reads s m h w f \<Longrightarrow> width_of s m = word_of_nat w \<and> w < 2 ^ 64"
  by (simp add: reads_def)

lemma reads_cell:
  "reads s m h w f \<Longrightarrow> 1 \<le> i \<Longrightarrow> i \<le> h \<Longrightarrow> 1 \<le> j \<Longrightarrow> j \<le> w \<Longrightarrow>
   cell s m (word_of_nat i) (word_of_nat j) = Inr (f i j)"
  by (simp add: reads_def)

lemma transposed_stream_reads:
  assumes "reads s m h w f"
  shows "transposed_stream s m = Inr (map (\<lambda>j. map (\<lambda>i. print_double (f i j)) [1..<Suc h]) [1..<Suc w])"
proof -
  have H: "coords (height_of s m) = map word_of_nat [1..<Suc h]"
    using reads_height [OF assms] by (simp add: coords_of_nat)
  have W: "coords (width_of s m) = map word_of_nat [1..<Suc w]"
    using reads_width [OF assms] by (simp add: coords_of_nat)
  have inner: "collect (\<lambda>r. print_cell s m r (word_of_nat j)) (map word_of_nat [1..<Suc h])
      = Inr (map (\<lambda>i. print_double (f i j)) [1..<Suc h])" if "1 \<le> j" "j \<le> w" for j
  proof -
    have "\<forall>x \<in> set (map word_of_nat [1..<Suc h]).
            print_cell s m x (word_of_nat j) = Inr (print_double (f (unat x) j))"
      using reads_cell [OF assms _ _ that] reads_height [OF assms]
      by (auto simp: print_cell_def unat_of_nat64 simp del: upt_Suc)
    then have "collect (\<lambda>r. print_cell s m r (word_of_nat j)) (map word_of_nat [1..<Suc h])
      = Inr (map (\<lambda>x. print_double (f (unat x) j)) (map (word_of_nat :: nat \<Rightarrow> coord_t) [1..<Suc h]))"
      by (rule collect_all [where g = "\<lambda>x. print_double (f (unat x) j)"])
    also have "map (\<lambda>x. print_double (f (unat x) j)) (map (word_of_nat :: nat \<Rightarrow> coord_t) [1..<Suc h])
      = map (\<lambda>i. print_double (f i j)) [1..<Suc h]"
      using reads_height [OF assms] by (auto simp: unat_of_nat64 simp del: upt_Suc)
    finally show ?thesis .
  qed
  have "\<forall>c \<in> set (map word_of_nat [1..<Suc w]).
          collect (\<lambda>r. print_cell s m r c) (map word_of_nat [1..<Suc h])
          = Inr (map (\<lambda>i. print_double (f i (unat c))) [1..<Suc h])"
    using inner reads_width [OF assms] by (auto simp: unat_of_nat64 simp del: upt_Suc)
  then have "collect (\<lambda>c. collect (\<lambda>r. print_cell s m r c) (map word_of_nat [1..<Suc h]))
                (map word_of_nat [1..<Suc w])
      = Inr (map (\<lambda>c. map (\<lambda>i. print_double (f i (unat c))) [1..<Suc h]) (map (word_of_nat :: nat \<Rightarrow> coord_t) [1..<Suc w]))"
    by (rule collect_all [where g = "\<lambda>c. map (\<lambda>i. print_double (f i (unat c))) [1..<Suc h]"])
  also have "map (\<lambda>c. map (\<lambda>i. print_double (f i (unat c))) [1..<Suc h]) (map (word_of_nat :: nat \<Rightarrow> coord_t) [1..<Suc w])
      = map (\<lambda>j. map (\<lambda>i. print_double (f i j)) [1..<Suc h]) [1..<Suc w]"
    using reads_width [OF assms] by (auto simp: unat_of_nat64 simp del: upt_Suc)
  finally show ?thesis by (simp add: transposed_stream_def H W)
qed


lemma transposed_reads:
  assumes r: "reads s m h w f" and h: "1 \<le> h"
    and ok: "\<forall>i j. 1 \<le> i \<and> i \<le> h \<and> 1 \<le> j \<and> j \<le> w \<longrightarrow> readable (f i j)"
  shows "transposed s m = Inr (grid_matrix w (if w = 0 then 0 else h) (\<lambda>i j. text_round (f j i)))"
proof -
  have "Matrix_stream (map (\<lambda>k. map (\<lambda>i. print_double (f i k)) [1..<Suc h]) [1..<Suc w])
        = Inr (grid_matrix w (if w = 0 then 0 else h) (\<lambda>i j. text_round (f j i)))"
  proof (rule Matrix_stream_grid [OF h])
    show "h < 2 ^ 64" using reads_height [OF r] by simp
    show "w < 2 ^ 64" using reads_width [OF r] by simp
    show "\<forall>k j. 1 \<le> k \<and> k \<le> w \<and> 1 \<le> j \<and> j \<le> h \<longrightarrow>
            parse_double (print_double (f j k)) = Some (text_round (f j k))"
      using ok readable_reparse by (simp add: reparse_def)
  qed
  then show ?thesis
    by (simp add: transposed_def transposed_stream_reads [OF r])
qed


lemma reads_cong:
  "reads s m h w f \<Longrightarrow> (\<And>i j. 1 \<le> i \<Longrightarrow> i \<le> h \<Longrightarrow> 1 \<le> j \<Longrightarrow> j \<le> w \<Longrightarrow> f i j = g i j) \<Longrightarrow>
   reads s m h w g"
  by (simp add: reads_def)



section \<open>Doubles that are small integers\<close>

lemma digits_nonneg: "0 \<le> digits b n"
proof (induction b n rule: digits.induct)
  case (1 b n)
  then show ?case by (subst digits.simps) auto
qed

lemma digits_pos: "0 < n \<Longrightarrow> 2 \<le> b \<Longrightarrow> 1 \<le> digits b n"
  using digits_nonneg [of b "n div b"] by (subst digits.simps) auto

lemma digits_bound: "n < b ^ k \<Longrightarrow> 2 \<le> b \<Longrightarrow> digits b n \<le> int k"
proof (induction k arbitrary: n)
  case 0
  then have "n \<le> 0" by simp
  then show ?case by (subst digits.simps) simp
next
  case (Suc k)
  show ?case
  proof (cases "n \<le> 0")
    case True
    then show ?thesis by (subst digits.simps) simp
  next
    case False
    have "n div b < b ^ k"
    proof (rule ccontr)
      assume "\<not> n div b < b ^ k"
      then have "b ^ k \<le> n div b" by simp
      then have "b * b ^ k \<le> b * (n div b)" using Suc.prems(2) by (simp add: mult_left_mono)
      moreover have "b * (n div b) \<le> n"
        using Suc.prems(2) pos_mod_sign [of b n] mult_div_mod_eq [of b n] by linarith
      ultimately show False using Suc.prems(1) by simp
    qed
    then have "digits b (n div b) \<le> int k" using Suc.prems(2) by (rule Suc.IH)
    then show ?thesis using False Suc.prems(2) by (subst digits.simps) simp
  qed
qed

lemma rne_of_int [simp]: "rne (of_int k) = k"
  by (simp add: rne_def)

lemma ilog_int_range:
  assumes "1 \<le> k" and "k < b ^ n" and "2 \<le> b"
  shows "0 \<le> ilog b (of_int k) \<and> ilog b (of_int k) < int n"
proof -
  have "1 \<le> digits b k" using assms by (simp add: digits_pos)
  moreover have "digits b k \<le> int n" using assms by (simp add: digits_bound)
  ultimately show ?thesis using assms(1) by (simp add: ilog_def)
qed

lemma powi_nonpos: "e \<le> d \<Longrightarrow> (x :: rat) powi (e - d) = inverse (x ^ nat (d - e))"
  by (cases "e = d") (simp_all add: power_int_def power_inverse)

text \<open>an integer below \<open>2\<^sup>5\<^sup>3\<close> is a double, and rounds to itself\<close>
lemma ulp_int:
  assumes "1 \<le> k" and "k < 2 ^ 53"
  shows "ulp (of_int k) = inverse (2 ^ nat (52 - ilog 2 (of_int k)))" and "ilog 2 (of_int k) \<le> 52"
proof -
  have r: "0 \<le> ilog 2 (of_int k) \<and> ilog 2 (of_int k) < int 53"
    using assms by (intro ilog_int_range) simp_all
  then show "ilog 2 (of_int k) \<le> 52" by simp
  have "max (ilog 2 (of_int k)) (- 1022) = ilog 2 (of_int k)" using r by simp
  then show "ulp (of_int k) = inverse (2 ^ nat (52 - ilog 2 (of_int k)))"
    using r by (simp add: ulp_def powi_nonpos)
qed

lemma representable_int:
  assumes "\<bar>k\<bar> < 2 ^ 53"
  shows "representable (of_int k)"
proof (cases "k = 0")
  case True
  then show ?thesis by (simp add: representable_def)
next
  case False
  then have k1: "1 \<le> \<bar>k\<bar>" by simp
  have abs: "\<bar>of_int k :: rat\<bar> = of_int \<bar>k\<bar>" by simp
  have u: "ulp (of_int \<bar>k\<bar>) = inverse (2 ^ nat (52 - ilog 2 (of_int \<bar>k\<bar>)))"
    using k1 assms by (rule ulp_int)
  have "(of_int \<bar>k\<bar> :: rat) / ulp (of_int \<bar>k\<bar>) = of_int (\<bar>k\<bar> * 2 ^ nat (52 - ilog 2 (of_int \<bar>k\<bar>)))"
    unfolding u by (simp add: field_simps)
  then have "of_int \<lfloor>(of_int \<bar>k\<bar> :: rat) / ulp (of_int \<bar>k\<bar>)\<rfloor> = (of_int \<bar>k\<bar> :: rat) / ulp (of_int \<bar>k\<bar>)"
    by (simp only: floor_of_int)
  moreover have "(of_int \<bar>k\<bar> :: rat) < 2 ^ 1024"
  proof -
    have "\<bar>k\<bar> < 2 ^ 1024" using assms by (rule less_trans) simp
    then have "(of_int \<bar>k\<bar> :: rat) < of_int (2 ^ 1024)" by (simp only: of_int_less_iff)
    then show ?thesis by simp
  qed
  ultimately show ?thesis unfolding representable_def abs by simp
qed

lemma ulp_pos: "0 < ulp a"
  by (simp add: ulp_def)

lemma round_b64_representable:
  assumes "representable q" and "q \<noteq> 0"
  shows "round_b64 q = Fin q"
proof -
  let ?a = "\<bar>q\<bar>"
  have fl: "of_int \<lfloor>?a / ulp ?a\<rfloor> = ?a / ulp ?a" and lt: "?a < 2 ^ 1024"
    using assms by (simp_all add: representable_def)
  have "rne (?a / ulp ?a) = \<lfloor>?a / ulp ?a\<rfloor>"
    by (subst fl [symmetric]) (simp only: rne_of_int floor_of_int)
  then have "of_int (rne (?a / ulp ?a)) = ?a / ulp ?a"
    by (simp only: fl)
  then have r: "of_int (rne (?a / ulp ?a)) * ulp ?a = ?a"
    using ulp_pos [of ?a] by (simp only: nonzero_divide_eq_eq) simp
  show ?thesis
    unfolding round_b64_def Let_def r using lt assms(2) by auto
qed

lemma round_b64_int: "\<bar>k\<bar> < 2 ^ 53 \<Longrightarrow> k \<noteq> 0 \<Longrightarrow> round_b64 (of_int k) = Fin (of_int k)"
  by (simp add: round_b64_representable representable_int)


text \<open>an integer of at most six digits is printed in full and read back as it is\<close>
lemma round6_int:
  assumes "1 \<le> k" and "k < 10 ^ 6"
  shows "round6 (of_int k) = of_int k"
proof -
  have r: "0 \<le> ilog 10 (of_int k) \<and> ilog 10 (of_int k) < int 6"
    using assms by (intro ilog_int_range) simp_all
  then have p: "(10 :: rat) powi (ilog 10 (of_int k) - 5) = inverse (10 ^ nat (5 - ilog 10 (of_int k)))"
    by (simp add: powi_nonpos)
  have "(of_int k :: rat) / 10 powi (ilog 10 (of_int k) - 5) = of_int (k * 10 ^ nat (5 - ilog 10 (of_int k)))"
    unfolding p by (simp add: field_simps)
  then have "of_int (rne ((of_int k :: rat) / 10 powi (ilog 10 (of_int k) - 5))) * 10 powi (ilog 10 (of_int k) - 5)
      = (of_int k :: rat) / 10 powi (ilog 10 (of_int k) - 5) * 10 powi (ilog 10 (of_int k) - 5)"
    by (simp only: rne_of_int)
  also have "\<dots> = of_int k" unfolding p by simp
  finally show ?thesis using assms(1) by (simp add: round6_def)
qed

lemma stable_int:
  assumes "\<bar>k\<bar> < 10 ^ 6"
  shows "stable (Fin (of_int k))"
proof (cases "k = 0")
  case True
  then show ?thesis by (simp add: stable_def reparse_def round6_def zero_of_def)
next
  case False
  then have k1: "1 \<le> \<bar>k\<bar>" by simp
  have abs: "\<bar>of_int k :: rat\<bar> = of_int \<bar>k\<bar>" by simp
  have r6: "round6 \<bar>of_int k :: rat\<bar> = of_int \<bar>k\<bar>"
    unfolding abs using k1 assms by (rule round6_int)
  have small: "\<bar>k\<bar> < 2 ^ 53" using assms by (rule less_trans) simp
  have sgn_back: "(if k < 0 then - (of_int \<bar>k\<bar> :: rat) else of_int \<bar>k\<bar>) = of_int k" by simp
  have rb: "round_b64 (of_int k) = Fin (of_int k)" using small False by (rule round_b64_int)
  show ?thesis
    unfolding stable_def reparse_def print_double.simps r6 parse_double.simps
    using False by (simp only: of_int_less_0_iff sgn_back rb) simp
qed

lemma stable_numeral [simp]:
  "numeral n < (10 :: int) ^ 6 \<Longrightarrow> stable (Fin (numeral n))"
  "numeral n < (10 :: int) ^ 6 \<Longrightarrow> stable (Fin (- numeral n))"
  "stable (Fin 0)" "stable (Fin 1)" "stable (Fin (- 1))"
  using stable_int [of "numeral n"] stable_int [of "- numeral n"] stable_int [of 0] stable_int [of 1]
    stable_int [of "- 1"]
  by simp_all

lemma representable_numeral [simp]:
  "numeral n < (2 :: int) ^ 53 \<Longrightarrow> representable (numeral n)"
  "numeral n < (2 :: int) ^ 53 \<Longrightarrow> representable (- numeral n)"
  "representable 0" "representable 1" "representable (- 1)"
  using representable_int [of "numeral n"] representable_int [of "- numeral n"]
    representable_int [of 0] representable_int [of 1] representable_int [of "- 1"]
  by simp_all






section \<open>Transposition\<close>















section \<open>Views and minors of a grid\<close>

lemma of_nat_shift: "1 \<le> i \<Longrightarrow> (word_of_nat r + word_of_nat i - 1 :: coord_t) = word_of_nat (r + i - 1)"
proof -
  assume "1 \<le> i"
  then obtain i' where i: "i = Suc i'" by (cases i) simp_all
  show ?thesis unfolding i by simp
qed

lemma of_nat_extent: "c1 \<le> c2 \<Longrightarrow> (word_of_nat c2 - word_of_nat c1 + 1 :: coord_t) = word_of_nat (c2 - c1 + 1)"
  by (simp add: of_nat_diff)

lemma word_le_of_nat: "a \<le> b \<Longrightarrow> b < 2 ^ 64 \<Longrightarrow> (word_of_nat a :: coord_t) \<le> word_of_nat b"
  by (simp add: word_le_nat_alt unat_of_nat64)

lemma view_reads:
  assumes r: "reads s m h w f"
    and rect: "1 \<le> r1" "r1 \<le> r2" "r2 \<le> h" "1 \<le> c1" "c1 \<le> c2" "c2 \<le> w"
  shows "MatrixView s m (word_of_nat r1) (word_of_nat c1) (word_of_nat r2) (word_of_nat c2)
         = Inr (View m (word_of_nat r1) (word_of_nat c1) (word_of_nat (c2 - c1 + 1)) (word_of_nat (r2 - r1 + 1)))"
    and "reads s (View m (word_of_nat r1) (word_of_nat c1) (word_of_nat (c2 - c1 + 1)) (word_of_nat (r2 - r1 + 1)))
           (r2 - r1 + 1) (c2 - c1 + 1) (\<lambda>i j. f (r1 + i - 1) (c1 + j - 1))"
proof -
  have hb: "h < 2 ^ 64" and hh: "height_of s m = word_of_nat h" using reads_height [OF r] by simp_all
  have wb: "w < 2 ^ 64" and ww: "width_of s m = word_of_nat w" using reads_width [OF r] by simp_all
  have le: "(word_of_nat r1 :: coord_t) \<le> word_of_nat h" "(word_of_nat r2 :: coord_t) \<le> word_of_nat h"
      "(word_of_nat c1 :: coord_t) \<le> word_of_nat w" "(word_of_nat c2 :: coord_t) \<le> word_of_nat w"
    using rect hb wb by (simp_all add: word_le_of_nat)
  show "MatrixView s m (word_of_nat r1) (word_of_nat c1) (word_of_nat r2) (word_of_nat c2)
         = Inr (View m (word_of_nat r1) (word_of_nat c1) (word_of_nat (c2 - c1 + 1)) (word_of_nat (r2 - r1 + 1)))"
    unfolding MatrixView_def hh ww using le of_nat_extent [OF rect(2)] of_nat_extent [OF rect(5)]
    by (simp add: not_less)
  show "reads s (View m (word_of_nat r1) (word_of_nat c1) (word_of_nat (c2 - c1 + 1)) (word_of_nat (r2 - r1 + 1)))
           (r2 - r1 + 1) (c2 - c1 + 1) (\<lambda>i j. f (r1 + i - 1) (c1 + j - 1))"
    unfolding reads_def
  proof (intro conjI allI impI)
    show "r2 - r1 + 1 < 2 ^ 64" using rect hb by simp
    show "c2 - c1 + 1 < 2 ^ 64" using rect wb by simp
  next
    fix i j assume a: "1 \<le> i \<and> i \<le> r2 - r1 + 1 \<and> 1 \<le> j \<and> j \<le> c2 - c1 + 1"
    have "cell s m (word_of_nat (r1 + i - 1)) (word_of_nat (c1 + j - 1)) = Inr (f (r1 + i - 1) (c1 + j - 1))"
      using a rect by (intro reads_cell [OF r]) arith+
    then show "cell s (View m (word_of_nat r1) (word_of_nat c1) (word_of_nat (c2 - c1 + 1)) (word_of_nat (r2 - r1 + 1)))
            (word_of_nat i) (word_of_nat j) = Inr (f (r1 + i - 1) (c1 + j - 1))"
      using a by (simp add: of_nat_shift del: of_nat_add of_nat_diff)
  qed simp_all
qed







section \<open>Determinant by cofactor expansion\<close>






















section \<open>The addressor at and beyond the bounds\<close>

text \<open>
  C8. The addressor is claimed to fail for a row number outside the matrix, 0 included.
  The number goes to the constructor of the view, which tests the upper bounds only: over
  a 2 by 2 matrix \<^verbatim>\<open>M > "R0"\<close> returns a view with the first row 0, every cell of which
  is outside the matrix. The other cases are as claimed: \<^verbatim>\<open>"R2"\<close> is the second row,
  \<^verbatim>\<open>"R3"\<close> is rejected by the constructor, \<^verbatim>\<open>"X1"\<close> has no known first character and
  \<^verbatim>\<open>"R"\<close> has no number for \<^verbatim>\<open>std::stoll\<close>.
\<close>

theorem addressor_accepts_row_zero:
  "op_gt [Matrix_of [[Fin 1, Fin 2], [Fin 3, Fin 4]]] (Obj 0) ''R0'' = Inr (View (Obj 0) 0 1 2 1)
   \<and> cell [Matrix_of [[Fin 1, Fin 2], [Fin 3, Fin 4]]] (View (Obj 0) 0 1 2 1) 1 1 = Inl OutOfRange
   \<and> cell [Matrix_of [[Fin 1, Fin 2], [Fin 3, Fin 4]]] (View (Obj 0) 0 1 2 1) 1 2 = Inl OutOfRange
   \<and> op_gt [Matrix_of [[Fin 1, Fin 2], [Fin 3, Fin 4]]] (Obj 0) ''C0'' = Inr (View (Obj 0) 1 0 1 2)
   \<and> op_gt [Matrix_of [[Fin 1, Fin 2], [Fin 3, Fin 4]]] (Obj 0) ''R2'' = Inr (View (Obj 0) 2 1 2 1)
   \<and> cell [Matrix_of [[Fin 1, Fin 2], [Fin 3, Fin 4]]] (View (Obj 0) 2 1 2 1) 1 1 = Inr (Fin 3)
   \<and> cell [Matrix_of [[Fin 1, Fin 2], [Fin 3, Fin 4]]] (View (Obj 0) 2 1 2 1) 1 2 = Inr (Fin 4)
   \<and> op_gt [Matrix_of [[Fin 1, Fin 2], [Fin 3, Fin 4]]] (Obj 0) ''R3'' = Inl ViewOutside
   \<and> op_gt [Matrix_of [[Fin 1, Fin 2], [Fin 3, Fin 4]]] (Obj 0) ''X1'' = Inl AddressFormat
   \<and> op_gt [Matrix_of [[Fin 1, Fin 2], [Fin 3, Fin 4]]] (Obj 0) ''R'' = Inl StollInvalid"
  by (simp add: op_gt_def stoll_def isspace_def isdigit_def digits_value_def MatrixView_def
        Matrix_of_2x2 map_at_def)

section \<open>The matrix product\<close>

lemma of_char_digit_nat: "d < 10 \<Longrightarrow> (of_char (char_of (48 + d :: nat)) :: nat) = 48 + d"
  by simp

lemma of_char_digit_int: "d < 10 \<Longrightarrow> (of_char (char_of (48 + d :: nat)) :: int) = 48 + int d"
proof -
  assume d: "d < 10"
  have "(of_char (char_of (48 + d :: nat)) :: int) = int (of_char (char_of (48 + d :: nat)))"
    by (simp only: of_nat_of_char)
  then show ?thesis using of_char_digit_nat [OF d] by simp
qed

lemma to_string_digits: "\<forall>ch \<in> set (to_string n). isdigit ch"
proof (induction n rule: to_string.induct)
  case (1 n)
  show ?case
  proof (cases "n < 10")
    case True
    then show ?thesis by (subst to_string.simps) (simp add: isdigit_def)
  next
    case False
    have "n mod 10 < 10" by simp
    then have "isdigit (char_of (48 + n mod 10))" by (simp add: isdigit_def)
    then show ?thesis using False 1 by (subst to_string.simps) simp
  qed
qed

lemma to_string_nonempty: "to_string n \<noteq> []"
  by (subst to_string.simps) simp

lemma digits_value_snoc: "digits_value (ds @ [ch]) = 10 * digits_value ds + (of_char ch - 48)"
  by (simp add: digits_value_def)

lemma digits_value_to_string: "digits_value (to_string n) = int n"
proof (induction n rule: to_string.induct)
  case (1 n)
  show ?case
  proof (cases "n < 10")
    case True
    then show ?thesis by (subst to_string.simps) (simp add: digits_value_def of_char_digit_int)
  next
    case False
    have "n mod 10 < 10" by simp
    then have "(of_char (char_of (48 + n mod 10) :: char) :: int) = 48 + int (n mod 10)"
      by (rule of_char_digit_int)
    moreover have "10 * int (n div 10) + int (n mod 10) = int n"
      by (simp add: zmod_int zdiv_int)
    ultimately show ?thesis using False 1
      by (subst to_string.simps) (simp add: digits_value_snoc)
  qed
qed

lemma digit_not_space: "isdigit ch \<Longrightarrow> \<not> isspace ch \<and> ch \<noteq> CHR ''-'' \<and> ch \<noteq> CHR ''+''"
  by (auto simp: isdigit_def isspace_def)

lemma stoll_to_string:
  assumes "n < 2 ^ 63"
  shows "stoll (to_string n) = Inr (int n)"
proof -
  obtain ch t where ct: "to_string n = ch # t" using to_string_nonempty [of n] by (cases "to_string n") auto
  have d: "\<forall>x \<in> set (ch # t). isdigit x" using to_string_digits [of n] ct by simp
  then have c: "\<not> isspace ch" "ch \<noteq> CHR ''-''" "ch \<noteq> CHR ''+''" using digit_not_space by auto
  have tw: "takeWhile isdigit (ch # t) = ch # t" using d by (simp add: takeWhile_eq_all_conv)
  have v: "digits_value (ch # t) = int n" using digits_value_to_string [of n] ct by simp
  have "int n \<le> 2 ^ 63 - 1" using assms by (simp add: of_nat_less_iff [of n "2 ^ 63", where 'a = int, simplified])
  then show ?thesis
    unfolding ct stoll_def using c d v by (simp add: Let_def tw del: takeWhile.simps)
qed

lemma cell_append:
  "(\<forall>b. base m = Some b \<longrightarrow> b < length s) \<Longrightarrow> cell (s @ t) m r c = cell s m r c"
  by (induction m arbitrary: r c) (simp_all add: nth_append)

lemma width_of_append:
  "(\<forall>b. base m = Some b \<longrightarrow> b < length s) \<Longrightarrow> width_of (s @ t) m = width_of s m"
  by (cases m) (simp_all add: nth_append)

lemma height_of_append:
  "(\<forall>b. base m = Some b \<longrightarrow> b < length s) \<Longrightarrow> height_of (s @ t) m = height_of s m"
  by (cases m) (simp_all add: nth_append)

lemma reads_append:
  "(\<forall>b. base m = Some b \<longrightarrow> b < length s) \<Longrightarrow> reads (s @ t) m h w f = reads s m h w f"
  by (simp add: reads_def cell_append width_of_append height_of_append)

lemma foldl_map_put:
  "foldl map_put m (map (\<lambda>p. (p, g p)) ps) = (\<lambda>k. if k \<in> set ps then Some (g k) else m k)"
proof (induction ps arbitrary: m)
  case Nil
  then show ?case by simp
next
  case (Cons p ps)
  show ?case
    unfolding list.map foldl_Cons Cons.IH
    by (auto simp: map_put_def fun_eq_iff)
qed

lemma copy_cells_reads:
  assumes r: "reads s X h w f"
  shows "copy_cells s X = Inr (numbers (grid_matrix h w f))"
proof -
  have hb: "h < 2 ^ 64" and hh: "height_of s X = word_of_nat h" using reads_height [OF r] by simp_all
  have wb: "w < 2 ^ 64" and ww: "width_of s X = word_of_nat w" using reads_width [OF r] by simp_all
  let ?g = "\<lambda>p :: coord_t \<times> coord_t. f (unat (fst p)) (unat (snd p))"
  have rng: "(p \<in> set (offsets (word_of_nat h) (word_of_nat w)))
      = (1 \<le> unat (fst p) \<and> unat (fst p) \<le> h \<and> 1 \<le> unat (snd p) \<and> unat (snd p) \<le> w)" for p
    using hb wb by (simp add: set_offsets word_le_nat_alt unat_of_nat64)
  have "collect (\<lambda>p. case cell s X (fst p) (snd p) of Inl e \<Rightarrow> Inl e | Inr v \<Rightarrow> Inr (p, v))
          (offsets (word_of_nat h) (word_of_nat w))
        = Inr (map (\<lambda>p. (p, ?g p)) (offsets (word_of_nat h) (word_of_nat w)))"
  proof (rule collect_all, rule ballI)
    fix p assume "p \<in> set (offsets (word_of_nat h :: coord_t) (word_of_nat w))"
    then have a: "1 \<le> unat (fst p)" "unat (fst p) \<le> h" "1 \<le> unat (snd p)" "unat (snd p) \<le> w"
      using rng by simp_all
    have "cell s X (word_of_nat (unat (fst p))) (word_of_nat (unat (snd p))) = Inr (?g p)"
      using a by (intro reads_cell [OF r]) simp_all
    then show "(case cell s X (fst p) (snd p) of Inl e \<Rightarrow> Inl e | Inr v \<Rightarrow> Inr (p, v)) = Inr (p, ?g p)"
      by simp
  qed
  then have "copy_cells s X = Inr (\<lambda>k. if k \<in> set (offsets (word_of_nat h) (word_of_nat w))
                                        then Some (?g k) else None)"
    unfolding copy_cells_def hh ww by (simp add: foldl_map_put)
  also have "(\<lambda>k. if k \<in> set (offsets (word_of_nat h :: coord_t) (word_of_nat w)) then Some (?g k) else None)
      = numbers (grid_matrix h w f)"
    by (rule ext) (simp add: rng grid_matrix_def)
  finally show ?thesis .
qed

lemma Matrix_copy_reads:
  assumes r: "reads s X h w f"
  shows "Matrix_copy s X = Inr (grid_matrix h w f)"
proof -
  have "height_of s X = word_of_nat h" "width_of s X = word_of_nat w"
    using reads_height [OF r] reads_width [OF r] by simp_all
  then show ?thesis
    by (simp add: Matrix_copy_def copy_cells_reads [OF r] grid_matrix_def)
qed

lemma op_gt_row:
  assumes r: "reads s M h w f" and i: "1 \<le> i" "i \<le> h" and w: "1 \<le> w" and hb: "h < 2 ^ 63"
  shows "\<exists>v. op_gt s M (CHR ''R'' # to_string (unat (word_of_nat i :: coord_t))) = Inr v
              \<and> reads s v 1 w (\<lambda>a j. f i j)"
proof -
  have ib: "i < 2 ^ 63" using i hb by simp
  then have ib64: "i < 2 ^ 64" by (simp add: order_less_trans [of i "2 ^ 63" "2 ^ 64"])
  have u: "unat (word_of_nat i :: coord_t) = i" using ib64 by (simp add: unat_of_nat64)
  have ww: "width_of s M = word_of_nat w" using reads_width [OF r] by simp
  have st: "stoll (to_string i) = Inr (int i)" using ib by (rule stoll_to_string)
  let ?v = "View M (word_of_nat i) (word_of_nat 1) (word_of_nat (w - 1 + 1)) (word_of_nat (i - i + 1))"
  have mv: "MatrixView s M (word_of_nat i) (word_of_nat 1) (word_of_nat i) (word_of_nat w) = Inr ?v"
    using i w by (intro view_reads(1) [OF r]) simp_all
  have rv: "reads s ?v (i - i + 1) (w - 1 + 1) (\<lambda>a j. f (i + a - 1) (1 + j - 1))"
    using i w by (intro view_reads(2) [OF r]) simp_all
  have rv': "reads s ?v 1 w (\<lambda>a j. f i j)"
    by (rule reads_cong [of s ?v 1 w "\<lambda>a j. f (i + a - 1) (1 + j - 1)"]) (use rv w in simp_all)
  have "op_gt s M (CHR ''R'' # to_string (unat (word_of_nat i :: coord_t))) = Inr ?v"
    unfolding u using st mv ww by (simp add: op_gt_def)
  then show ?thesis using rv' by blast
qed

lemma op_gt_column:
  assumes r: "reads s M h w f" and j: "1 \<le> j" "j \<le> w" and h: "1 \<le> h" and wb: "w < 2 ^ 63"
  shows "\<exists>v. op_gt s M (CHR ''C'' # to_string (unat (word_of_nat j :: coord_t))) = Inr v
              \<and> reads s v h 1 (\<lambda>i b. f i j)"
proof -
  have jb: "j < 2 ^ 63" using j wb by simp
  then have jb64: "j < 2 ^ 64" by (simp add: order_less_trans [of j "2 ^ 63" "2 ^ 64"])
  have u: "unat (word_of_nat j :: coord_t) = j" using jb64 by (simp add: unat_of_nat64)
  have hh: "height_of s M = word_of_nat h" using reads_height [OF r] by simp
  have st: "stoll (to_string j) = Inr (int j)" using jb by (rule stoll_to_string)
  let ?v = "View M (word_of_nat 1) (word_of_nat j) (word_of_nat (j - j + 1)) (word_of_nat (h - 1 + 1))"
  have mv: "MatrixView s M (word_of_nat 1) (word_of_nat j) (word_of_nat h) (word_of_nat j) = Inr ?v"
    using j h by (intro view_reads(1) [OF r]) simp_all
  have rv: "reads s ?v (h - 1 + 1) (j - j + 1) (\<lambda>i b. f (1 + i - 1) (j + b - 1))"
    using j h by (intro view_reads(2) [OF r]) simp_all
  have rv': "reads s ?v h 1 (\<lambda>i b. f i j)"
    by (rule reads_cong [of s ?v h 1 "\<lambda>i b. f (1 + i - 1) (j + b - 1)"]) (use rv h in simp_all)
  have "op_gt s M (CHR ''C'' # to_string (unat (word_of_nat j :: coord_t))) = Inr ?v"
    unfolding u using st mv hh by (simp add: op_gt_def)
  then show ?thesis using rv' by blast
qed

lemma dot_reads:
  assumes l: "reads s L 1 n a" and r: "reads s R 1 n b"
    and js: "\<forall>k \<in> set ks. 1 \<le> k \<and> k \<le> n"
  shows "dot s L R (map word_of_nat ks) num
         = Inr (foldl (\<lambda>num k. d_add num (d_mul (a 1 k) (b 1 k))) num ks)"
  using js
proof (induction ks arbitrary: num)
  case Nil
  then show ?case by simp
next
  case (Cons k ks)
  have k: "1 \<le> k" "k \<le> n" using Cons.prems by simp_all
  have "cell s L (word_of_nat 1) (word_of_nat k) = Inr (a 1 k)"
    using k by (intro reads_cell [OF l]) simp_all
  moreover have "cell s R (word_of_nat 1) (word_of_nat k) = Inr (b 1 k)"
    using k by (intro reads_cell [OF r]) simp_all
  ultimately show ?case using Cons by simp
qed

lemma mul_cell_reads:
  assumes A: "reads s X h n f" and B: "reads s Y n w g"
    and i: "1 \<le> i" "i \<le> h" and j: "1 \<le> j" "j \<le> w" and n: "1 \<le> n"
    and hb: "h < 2 ^ 63" and wb: "w < 2 ^ 63"
    and ok: "\<forall>k. 1 \<le> k \<and> k \<le> n \<longrightarrow> readable (g k j)"
  shows "mul_cell s X Y (word_of_nat i) (word_of_nat j)
         = Inr (print_double (dot_product n (f i) (\<lambda>k. text_round (g k j))))"
proof -
  obtain L where L: "op_gt s X (CHR ''R'' # to_string (unat (word_of_nat i :: coord_t))) = Inr L"
      "reads s L 1 n (\<lambda>a k. f i k)"
    using op_gt_row [OF A i n hb] by blast
  obtain C where C: "op_gt s Y (CHR ''C'' # to_string (unat (word_of_nat j :: coord_t))) = Inr C"
      "reads s C n 1 (\<lambda>k b. g k j)"
    using op_gt_column [OF B j n wb] by blast
  have ok': "\<forall>k b. 1 \<le> k \<and> k \<le> n \<and> 1 \<le> b \<and> b \<le> 1 \<longrightarrow> readable (g k j)"
    using ok by blast
  have T: "transposed s C = Inr (grid_matrix 1 n (\<lambda>b k. text_round (g k j)))"
    using transposed_reads [OF C(2) n ok'] by simp
  have nb: "n < 2 ^ 64" using reads_width [OF A] by simp
  have R: "reads s (Tmp (grid_matrix 1 n (\<lambda>b k. text_round (g k j)))) 1 n (\<lambda>b k. text_round (g k j))"
    using nb by (intro reads_grid) simp_all
  have cs: "coords (width_of s X) = map word_of_nat [1..<Suc n]"
    using reads_width [OF A] by (simp add: coords_of_nat)
  have D: "dot s L (Tmp (grid_matrix 1 n (\<lambda>b k. text_round (g k j)))) (map word_of_nat [1..<Suc n]) (Fin 0)
      = Inr (dot_product n (f i) (\<lambda>k. text_round (g k j)))"
    unfolding dot_product_def by (rule dot_reads [OF L(2) R]) auto
  show ?thesis
    using D by (simp add: mul_cell_def L(1) C(1) T cs del: upt_Suc)
qed

lemma collect_map: "collect f (map h xs) = collect (\<lambda>x. f (h x)) xs"
  by (induction xs) (simp_all cong: sum.case_cong)

lemma Matrix_assign_grid:
  assumes a: "a < length s" and hb: "h < 2 ^ 64" and wb: "w < 2 ^ 64"
  shows "Matrix_assign s a (Tmp (grid_matrix h w F)) = (None, s[a := grid_matrix h w F])"
proof -
  let ?G = "grid_matrix h w F"
  let ?s1 = "s[a := (s ! a)\<lparr>width := width_of s (Tmp ?G), height := height_of s (Tmp ?G)\<rparr>]"
  have "reads ?s1 (Tmp ?G) h w F" using hb wb by (rule reads_grid)
  then have c: "copy_cells ?s1 (Tmp ?G) = Inr (numbers ?G)" by (rule copy_cells_reads)
  have e: "(s ! a)\<lparr>width := word_of_nat w, height := word_of_nat h, numbers := numbers ?G\<rparr> = ?G"
    by (rule matrix_eqI) simp_all
  have "Matrix_assign s a (Tmp ?G)
      = (None, s[a := (s ! a)\<lparr>width := word_of_nat w, height := word_of_nat h, numbers := numbers ?G\<rparr>])"
    unfolding Matrix_assign_def Let_def c using a by simp
  then show ?thesis unfolding e .
qed

lemma product_stream:
  assumes A: "reads s X h n f" and B: "reads s Y n w g" and n: "1 \<le> n"
    and hb: "h < 2 ^ 63" and wb: "w < 2 ^ 63"
    and ok: "\<forall>k j. 1 \<le> k \<and> k \<le> n \<and> 1 \<le> j \<and> j \<le> w \<longrightarrow> readable (g k j)"
  shows "collect (\<lambda>r. collect (\<lambda>c. mul_cell s X Y r c) (coords (width_of s Y))) (coords (height_of s X))
    = Inr (map (\<lambda>i. map (\<lambda>j. print_double (dot_product n (f i) (\<lambda>k. text_round (g k j)))) [1..<Suc w])
             [1..<Suc h])"
proof -
  have H: "coords (height_of s X) = map word_of_nat [1..<Suc h]"
    using reads_height [OF A] by (simp add: coords_of_nat)
  have W: "coords (width_of s Y) = map word_of_nat [1..<Suc w]"
    using reads_width [OF B] by (simp add: coords_of_nat)
  have inner: "collect (\<lambda>c. mul_cell s X Y (word_of_nat i) c) (map word_of_nat [1..<Suc w])
      = Inr (map (\<lambda>j. print_double (dot_product n (f i) (\<lambda>k. text_round (g k j)))) [1..<Suc w])"
    if i: "1 \<le> i" "i \<le> h" for i
  proof -
    have "collect (\<lambda>j. mul_cell s X Y (word_of_nat i) (word_of_nat j)) [1..<Suc w]
        = Inr (map (\<lambda>j. print_double (dot_product n (f i) (\<lambda>k. text_round (g k j)))) [1..<Suc w])"
    proof (rule collect_all, rule ballI)
      fix j assume "j \<in> set [1..<Suc w]"
      then have j: "1 \<le> j" "j \<le> w" by auto
      have "\<forall>k. 1 \<le> k \<and> k \<le> n \<longrightarrow> readable (g k j)" using ok j by blast
      then show "mul_cell s X Y (word_of_nat i) (word_of_nat j)
          = Inr (print_double (dot_product n (f i) (\<lambda>k. text_round (g k j))))"
        by (rule mul_cell_reads [OF A B i j n hb wb])
    qed
    then show ?thesis by (simp add: collect_map del: upt_Suc)
  qed
  have "collect (\<lambda>i. collect (\<lambda>c. mul_cell s X Y (word_of_nat i) c) (map word_of_nat [1..<Suc w])) [1..<Suc h]
    = Inr (map (\<lambda>i. map (\<lambda>j. print_double (dot_product n (f i) (\<lambda>k. text_round (g k j)))) [1..<Suc w])
             [1..<Suc h])"
  proof (rule collect_all, rule ballI)
    fix i assume "i \<in> set [1..<Suc h]"
    then have "1 \<le> i" "i \<le> h" by auto
    then show "collect (\<lambda>c. mul_cell s X Y (word_of_nat i) c) (map word_of_nat [1..<Suc w])
      = Inr (map (\<lambda>j. print_double (dot_product n (f i) (\<lambda>k. text_round (g k j)))) [1..<Suc w])"
      by (rule inner)
  qed
  then show ?thesis unfolding H W by (simp add: collect_map del: upt_Suc)
qed

lemma lt63_lt64: "(x :: nat) < 2 ^ 63 \<Longrightarrow> x < 2 ^ 64"
  by (rule order_less_trans [of x "2 ^ 63"]) simp_all

lemma op_mul_assign_Obj:
  assumes a: "a < length s" and A: "reads s (Obj a) h n f" and B: "reads s Y n w g"
    and h: "1 \<le> h" and n: "1 \<le> n" and w: "1 \<le> w" and hb: "h < 2 ^ 63" and wb: "w < 2 ^ 63"
    and ok: "\<forall>k j. 1 \<le> k \<and> k \<le> n \<and> 1 \<le> j \<and> j \<le> w \<longrightarrow> readable (g k j)"
    and okD: "\<forall>i j. 1 \<le> i \<and> i \<le> h \<and> 1 \<le> j \<and> j \<le> w \<longrightarrow>
                readable (dot_product n (f i) (\<lambda>k. text_round (g k j)))"
  shows "op_mul_assign s (Obj a) Y
    = (None, s[a := grid_matrix h w (\<lambda>i j. text_round (dot_product n (f i) (\<lambda>k. text_round (g k j))))])"
proof -
  let ?P = "\<lambda>i j. dot_product n (f i) (\<lambda>k. text_round (g k j))"
  have shape: "width_of s (Obj a) = height_of s Y"
    using reads_width [OF A] reads_height [OF B] by simp
  have st: "collect (\<lambda>r. collect (\<lambda>c. mul_cell s (Obj a) Y r c) (coords (width_of s Y))) (coords (height_of s (Obj a)))
    = Inr (map (\<lambda>i. map (\<lambda>j. print_double (?P i j)) [1..<Suc w]) [1..<Suc h])"
    by (rule product_stream [OF A B n hb wb ok])
  have "Matrix_stream (map (\<lambda>i. map (\<lambda>j. print_double (?P i j)) [1..<Suc w]) [1..<Suc h])
      = Inr (grid_matrix h (if h = 0 then 0 else w) (\<lambda>i j. text_round (?P i j)))"
  proof (rule Matrix_stream_grid [OF w])
    show "w < 2 ^ 64" using wb by (rule lt63_lt64)
    show "h < 2 ^ 64" using hb by (rule lt63_lt64)
    show "\<forall>k j. 1 \<le> k \<and> k \<le> h \<and> 1 \<le> j \<and> j \<le> w \<longrightarrow>
            parse_double (print_double (?P k j)) = Some (text_round (?P k j))"
      using okD readable_reparse by (simp add: reparse_def)
  qed
  then have ms: "Matrix_stream (map (\<lambda>i. map (\<lambda>j. print_double (?P i j)) [1..<Suc w]) [1..<Suc h])
      = Inr (grid_matrix h w (\<lambda>i j. text_round (?P i j)))"
    using h by simp
  have as: "Matrix_assign s a (Tmp (grid_matrix h w (\<lambda>i j. text_round (?P i j))))
      = (None, s[a := grid_matrix h w (\<lambda>i j. text_round (?P i j))])"
    using a lt63_lt64 [OF hb] lt63_lt64 [OF wb] by (rule Matrix_assign_grid)
  show ?thesis
    unfolding op_mul_assign_def st using shape ms as by (simp del: upt_Suc)
qed

lemma op_mul_reads:
  assumes A: "reads s X h n f" and B: "reads s Y n w g"
    and vY: "\<forall>b. base Y = Some b \<longrightarrow> b < length s"
    and h: "1 \<le> h" and n: "1 \<le> n" and w: "1 \<le> w" and hb: "h < 2 ^ 63" and wb: "w < 2 ^ 63"
    and ok: "\<forall>k j. 1 \<le> k \<and> k \<le> n \<and> 1 \<le> j \<and> j \<le> w \<longrightarrow> readable (g k j)"
    and okD: "\<forall>i j. 1 \<le> i \<and> i \<le> h \<and> 1 \<le> j \<and> j \<le> w \<longrightarrow>
                readable (dot_product n (f i) (\<lambda>k. text_round (g k j)))"
  shows "op_mul s X Y
    = (Inr (grid_matrix h w (\<lambda>i j. text_round (dot_product n (f i) (\<lambda>k. text_round (g k j))))), s)"
proof -
  let ?G = "grid_matrix h w (\<lambda>i j. text_round (dot_product n (f i) (\<lambda>k. text_round (g k j))))"
  let ?s = "s @ [grid_matrix h n f]"
  have cp: "Matrix_copy s X = Inr (grid_matrix h n f)" using A by (rule Matrix_copy_reads)
  have nb: "n < 2 ^ 64" using reads_width [OF A] by simp
  have A': "reads ?s (Obj (length s)) h n f"
    using lt63_lt64 [OF hb] nb by (rule reads_grid_Obj) simp
  have B': "reads ?s Y n w g" using B vY by (simp add: reads_append)
  have "op_mul_assign ?s (Obj (length s)) Y = (None, ?s[length s := ?G])"
    by (rule op_mul_assign_Obj [OF _ A' B' h n w hb wb ok okD]) simp
  then show ?thesis
    by (simp add: op_mul_def cp with_local_def)
qed

lemma op_mul_assign_shape:
  "width_of s this \<noteq> height_of s rhs \<Longrightarrow> op_mul_assign s this rhs = (Some MulShape, s)"
  by (simp add: op_mul_assign_def)

lemma op_mul_shape:
  assumes A: "reads s X h n f" and vY: "\<forall>b. base Y = Some b \<longrightarrow> b < length s"
    and ne: "width_of s X \<noteq> height_of s Y"
  shows "op_mul s X Y = (Inl MulShape, s)"
proof -
  let ?s = "s @ [grid_matrix h n f]"
  have cp: "Matrix_copy s X = Inr (grid_matrix h n f)" using A by (rule Matrix_copy_reads)
  have "width_of ?s (Obj (length s)) = width_of s X" using reads_width [OF A] by simp
  moreover have "height_of ?s Y = height_of s Y" using vY by (rule height_of_append)
  ultimately have "op_mul_assign ?s (Obj (length s)) Y = (Some MulShape, ?s)"
    using ne by (simp add: op_mul_assign_shape)
  then show ?thesis
    by (simp add: op_mul_def cp with_local_def)
qed

end
